theory Spec2Isabelle
  imports Complex_Main "HOL-Library.Sublist" "HOL-Library.AList"
begin

section \<open>JavaScript values\<close>

text \<open>
  The values the stored objects hold: numbers, strings, arrays of strings and the plain
  empty object. A number is an integer (a count or a millisecond timestamp),
  \<^verbatim>\<open>NaN\<close>, \<^verbatim>\<open>Infinity\<close> or \<^verbatim>\<open>-Infinity\<close>; the numbers with a fraction are
  not part of this model. An object is a map from the names of its own properties to
  values; an absent property reads as \<^verbatim>\<open>undefined\<close>, which is \<open>None\<close>. A string is
  a sequence of UTF-16 code units below 256, the character \<open>CHR n\<close> being the code unit
  \<open>n\<close>.
\<close>

datatype jsval =
  JNum int | JNaN | JInfinity | JNegInfinity | JStr string | JArr "string list" | JObj

type_synonym jsobj = "string \<rightharpoonup> jsval"

datatype js_error = NotFoundError | DataError | TypeError

text \<open>\<^verbatim>\<open>await\<close> on a promise: a rejection propagates to the caller.\<close>

definition await :: "'e + 'a \<Rightarrow> ('a \<Rightarrow> 'e + 'b) \<Rightarrow> 'e + 'b" where
  "await r f = (case r of Inl e \<Rightarrow> Inl e | Inr x \<Rightarrow> f x)"

text \<open>
  A number is a double. The integers below \<open>2\<^sup>5\<^sup>3\<close> in absolute value are doubles, and a
  larger integer is rounded to the nearest integer with a significand of 53 bits, to the
  one with the even significand when two are equally near, and to infinity from
  \<open>2\<^sup>1\<^sup>0\<^sup>2\<^sup>4 - 2\<^sup>9\<^sup>7\<^sup>0\<close> on.
\<close>

function bit_length :: "int \<Rightarrow> nat" where
  "bit_length n = (if n \<le> 0 then 0 else Suc (bit_length (n div 2)))"
  by pat_completeness auto
termination
  by (relation "measure nat") auto

declare bit_length.simps [simp del]

definition round_to_double :: "int \<Rightarrow> jsval" where
  "round_to_double r =
     (if \<bar>r\<bar> < 2 ^ 53 then JNum r
      else
        (let ulp = 2 ^ (bit_length \<bar>r\<bar> - 53);
             significand = \<bar>r\<bar> div ulp;
             rest = \<bar>r\<bar> mod ulp;
             rounded = (if 2 * rest > ulp \<or> (2 * rest = ulp \<and> odd significand)
                        then significand + 1 else significand) * ulp
         in if rounded \<ge> 2 ^ 1024 then (if r < 0 then JNegInfinity else JInfinity)
            else JNum (if r < 0 then - rounded else rounded)))"

text \<open>
  The decimal digits of an integer, as \<^verbatim>\<open>Number.prototype.toString\<close> prints the
  integers below \<open>2\<^sup>5\<^sup>3\<close> in absolute value. Above, the source prints the shortest
  decimal that reads back as the same double, which is not modelled.
\<close>

fun show_nat :: "nat \<Rightarrow> string" where
  "show_nat n =
     (if n < 10 then [''0123456789'' ! n] else show_nat (n div 10) @ [''0123456789'' ! (n mod 10)])"

declare show_nat.simps [simp del]

definition js_numToString :: "int \<Rightarrow> string" where
  "js_numToString n = (if n < 0 then CHR ''-'' # show_nat (nat (- n)) else show_nat (nat n))"

fun join :: "string \<Rightarrow> string list \<Rightarrow> string" where
  "join sep [] = []"
| "join sep [x] = x"
| "join sep (x # y # ys) = x @ sep @ join sep (y # ys)"

fun js_toString :: "jsval \<Rightarrow> string" where
  "js_toString (JNum n) = js_numToString n"
| "js_toString JNaN = ''NaN''"
| "js_toString JInfinity = ''Infinity''"
| "js_toString JNegInfinity = ''-Infinity''"
| "js_toString (JStr s) = s"
| "js_toString (JArr xs) = join '','' xs"
| "js_toString JObj = ''[object Object]''"

fun truthy :: "jsval \<Rightarrow> bool" where
  "truthy (JNum n) = (n \<noteq> 0)"
| "truthy JNaN = False"
| "truthy JInfinity = True"
| "truthy JNegInfinity = True"
| "truthy (JStr s) = (s \<noteq> [])"
| "truthy (JArr xs) = True"
| "truthy JObj = True"

text \<open>\<^verbatim>\<open>x || d\<close> on a property that may be absent.\<close>

definition js_or :: "jsval option \<Rightarrow> jsval \<Rightarrow> jsval" where
  "js_or v d = (case v of None \<Rightarrow> d | Some x \<Rightarrow> if truthy x then x else d)"

text \<open>
  Binary \<^verbatim>\<open>+\<close>. Two numbers add as doubles: the sum of two integers is rounded,
  \<^verbatim>\<open>NaN\<close> absorbs, and the two infinities add to \<^verbatim>\<open>NaN\<close>. Any other operand turns
  the sum into the concatenation of the two operands' strings.
\<close>

fun is_number :: "jsval \<Rightarrow> bool" where
  "is_number (JNum n) = True"
| "is_number JNaN = True"
| "is_number JInfinity = True"
| "is_number JNegInfinity = True"
| "is_number other = False"

fun add_numbers :: "jsval \<Rightarrow> jsval \<Rightarrow> jsval" where
  "add_numbers (JNum a) (JNum b) = round_to_double (a + b)"
| "add_numbers (JNum a) JInfinity = JInfinity"
| "add_numbers (JNum a) JNegInfinity = JNegInfinity"
| "add_numbers JInfinity (JNum b) = JInfinity"
| "add_numbers JNegInfinity (JNum b) = JNegInfinity"
| "add_numbers JInfinity JInfinity = JInfinity"
| "add_numbers JNegInfinity JNegInfinity = JNegInfinity"
| "add_numbers a b = JNaN"

definition js_add :: "jsval \<Rightarrow> jsval \<Rightarrow> jsval" where
  "js_add a b =
     (if is_number a \<and> is_number b then add_numbers a b
      else JStr (js_toString a @ js_toString b))"

text \<open>
  White space, as \<^verbatim>\<open>trim\<close> strips it and \<^verbatim>\<open>\s\<close> matches it: among the code units
  below 256 these are the tab, the line feed, the vertical tab, the form feed, the
  carriage return, the space and the no-break space.
\<close>

definition is_space :: "char \<Rightarrow> bool" where
  "is_space c =
     (c \<in> set [CHR '' '', CHR 0x09, CHR 0x0A, CHR 0x0B, CHR 0x0C, CHR 0x0D, CHR 0xA0])"

definition trim :: "string \<Rightarrow> string" where
  "trim s = rev (dropWhile is_space (rev (dropWhile is_space s)))"

text \<open>
  \<^verbatim>\<open>ToNumber\<close>. A string is trimmed and read as a signed decimal integer, which is
  rounded to a double, or as a signed \<^verbatim>\<open>Infinity\<close>, and the empty string as 0. The
  literals with a fraction, an exponent or a radix prefix are not modelled: they read
  as \<^verbatim>\<open>NaN\<close> here.
\<close>

definition is_digit :: "char \<Rightarrow> bool" where
  "is_digit c = (48 \<le> (of_char c :: nat) \<and> (of_char c :: nat) \<le> 57)"

definition digits_value :: "string \<Rightarrow> int" where
  "digits_value ds = foldl (\<lambda>acc c. 10 * acc + (int (of_char c) - 48)) 0 ds"

definition str_toNumber :: "string \<Rightarrow> jsval" where
  "str_toNumber s =
     (let t = trim s in
      if t = [] then JNum 0
      else
        (let (neg, ds) =
               (if hd t = CHR ''-'' then (True, tl t)
                else if hd t = CHR ''+'' then (False, tl t) else (False, t))
         in if ds = ''Infinity'' then (if neg then JNegInfinity else JInfinity)
            else if ds \<noteq> [] \<and> list_all is_digit ds
            then round_to_double (if neg then - digits_value ds else digits_value ds)
            else JNaN))"

fun js_toNumber :: "jsval \<Rightarrow> jsval" where
  "js_toNumber (JStr s) = str_toNumber s"
| "js_toNumber (JArr xs) = str_toNumber (join '','' xs)"
| "js_toNumber JObj = JNaN"
| "js_toNumber number = number"

text \<open>\<^verbatim>\<open>v >= n\<close> against a number: false on \<^verbatim>\<open>undefined\<close> and \<^verbatim>\<open>NaN\<close>.\<close>

definition js_ge :: "jsval option \<Rightarrow> int \<Rightarrow> bool" where
  "js_ge v n =
     (case v of
        None \<Rightarrow> False
      | Some x \<Rightarrow>
          (case js_toNumber x of
             JNum k \<Rightarrow> k \<ge> n
           | JInfinity \<Rightarrow> True
           | other \<Rightarrow> False))"


section \<open>The local database (indexedDBService.js)\<close>

text \<open>
  An object store is a map from keys to records, and the database a map from store names
  to object stores. All stores are created with \<^verbatim>\<open>keyPath: 'id'\<close>, so the key of a
  record is the value of its \<^verbatim>\<open>id\<close> property, read by \<open>item_id\<close>. A transaction on a
  store the database does not have throws \<^verbatim>\<open>NotFoundError\<close>, and a key that is not a
  number, a string or an array throws \<^verbatim>\<open>DataError\<close>; the promise is then rejected.
  Indexes, quota and aborted transactions are not part of this key-value model.
\<close>

type_synonym 'a object_store = "jsval \<rightharpoonup> 'a"

type_synonym 'a database = "string \<rightharpoonup> 'a object_store"

definition STORES :: "string list" where
  "STORES = [''chatSessions'', ''quickPrompts'', ''userStats'', ''themes'', ''embeddings'']"

text \<open>\<^verbatim>\<open>onupgradeneeded\<close>: every store of \<open>STORES\<close> that is missing is created empty.\<close>

definition create_if_missing :: "string \<Rightarrow> 'a database \<Rightarrow> 'a database" where
  "create_if_missing name database =
     (if database name \<noteq> None then database else database(name \<mapsto> Map.empty))"

definition onupgradeneeded :: "'a database \<Rightarrow> 'a database" where
  "onupgradeneeded database = fold create_if_missing STORES database"

fun valid_key :: "jsval \<Rightarrow> bool" where
  "valid_key (JNum n) = True"
| "valid_key JNaN = False"
| "valid_key JInfinity = True"
| "valid_key JNegInfinity = True"
| "valid_key (JStr s) = True"
| "valid_key (JArr xs) = True"
| "valid_key JObj = False"

definition putInStore ::
  "('a \<Rightarrow> jsval option) \<Rightarrow> 'a database \<Rightarrow> string \<Rightarrow> 'a \<Rightarrow> js_error + 'a database" where
  "putInStore item_id db storeName item =
     (case db storeName of
        None \<Rightarrow> Inl NotFoundError
      | Some store \<Rightarrow>
          (case item_id item of
             None \<Rightarrow> Inl DataError
           | Some k \<Rightarrow>
               if valid_key k then Inr (db(storeName \<mapsto> store(k \<mapsto> item)))
               else Inl DataError))"

definition deleteFromStore :: "'a database \<Rightarrow> string \<Rightarrow> jsval \<Rightarrow> js_error + 'a database" where
  "deleteFromStore db storeName ident =
     (case db storeName of
        None \<Rightarrow> Inl NotFoundError
      | Some store \<Rightarrow>
          if valid_key ident then Inr (db(storeName \<mapsto> store(ident := None)))
          else Inl DataError)"

text \<open>\<^verbatim>\<open>request.result || null\<close>: the record, which is an object and so truthy, or
  \<open>None\<close> for \<^verbatim>\<open>null\<close>.\<close>

definition getFromStore :: "'a database \<Rightarrow> string \<Rightarrow> jsval \<Rightarrow> js_error + 'a option" where
  "getFromStore db storeName ident =
     (case db storeName of
        None \<Rightarrow> Inl NotFoundError
      | Some store \<Rightarrow> if valid_key ident then Inr (store ident) else Inl DataError)"

text \<open>
  A history of writes to the database. A rejected request leaves the database as it was.
\<close>

datatype 'a store_op = Put string 'a | Delete string jsval

fun run_op :: "('a \<Rightarrow> jsval option) \<Rightarrow> 'a database \<Rightarrow> 'a store_op \<Rightarrow> 'a database" where
  "run_op item_id db (Put storeName item) =
     (case putInStore item_id db storeName item of Inl e \<Rightarrow> db | Inr db' \<Rightarrow> db')"
| "run_op item_id db (Delete storeName ident) =
     (case deleteFromStore db storeName ident of Inl e \<Rightarrow> db | Inr db' \<Rightarrow> db')"

definition run_ops :: "('a \<Rightarrow> jsval option) \<Rightarrow> 'a database \<Rightarrow> 'a store_op list \<Rightarrow> 'a database" where
  "run_ops item_id db ops = foldl (run_op item_id) db ops"

section \<open>User statistics and achievements (statsService.js)\<close>

text \<open>
  The statistics are one record of the \<^verbatim>\<open>userStats\<close> store, kept under the key
  \<^verbatim>\<open>'main'\<close>. Every function takes the database and returns it updated; \<open>now\<close> is
  the reading of \<^verbatim>\<open>Date.now()\<close> during the call.
\<close>

definition USER_STATS :: string where
  "USER_STATS = ''userStats''"

definition getUserStats :: "jsobj database \<Rightarrow> js_error + jsobj option" where
  "getUserStats db = getFromStore db USER_STATS (JStr ''main'')"

text \<open>\<^verbatim>\<open>{ id: 'main', ...stats }\<close>: the properties of \<open>stats\<close> come last and win.\<close>

definition saveUserStats :: "jsobj database \<Rightarrow> jsobj \<Rightarrow> js_error + jsobj database" where
  "saveUserStats db stats =
     putInStore (\<lambda>obj. obj ''id'') db USER_STATS ([''id'' \<mapsto> JStr ''main''] ++ stats)"

definition initial_stats :: "int \<Rightarrow> jsobj" where
  "initial_stats now =
     [''totalMessages'' \<mapsto> JNum 0,
      ''totalChats'' \<mapsto> JNum 0,
      ''totalQuickPrompts'' \<mapsto> JNum 0,
      ''achievements'' \<mapsto> JArr [],
      ''joinDate'' \<mapsto> JNum now,
      ''streakDays'' \<mapsto> JNum 0,
      ''lastActiveDate'' \<mapsto> JNum now,
      ''favoriteFeatures'' \<mapsto> JObj,
      ''timeSpentChatting'' \<mapsto> JNum 0]"

definition initializeUserStats ::
  "int \<Rightarrow> jsobj database \<Rightarrow> js_error + (jsobj \<times> jsobj database)" where
  "initializeUserStats now db =
     await (getUserStats db) (\<lambda>stats.
       case stats of
         Some s \<Rightarrow> Inr (s, db)
       | None \<Rightarrow>
           await (saveUserStats db (initial_stats now)) (\<lambda>db'.
             Inr (initial_stats now, db')))"

text \<open>\<^verbatim>\<open>await getUserStats() || await initializeUserStats()\<close>, the opening line of every
  function below.\<close>

definition currentStats :: "int \<Rightarrow> jsobj database \<Rightarrow> js_error + (jsobj \<times> jsobj database)" where
  "currentStats now db =
     await (getUserStats db) (\<lambda>stats.
       case stats of
         Some s \<Rightarrow> Inr (s, db)
       | None \<Rightarrow> initializeUserStats now db)"

definition updateUserStats ::
  "int \<Rightarrow> jsobj database \<Rightarrow> jsobj \<Rightarrow> js_error + (jsobj \<times> jsobj database)" where
  "updateUserStats now db updates =
     await (currentStats now db) (\<lambda>(current, db1).
       let updatedStats = current ++ updates in
       await (saveUserStats db1 updatedStats) (\<lambda>db2. Inr (updatedStats, db2)))"

text \<open>
  The statistics are a plain object, and a property that it does not have itself is read
  from \<^verbatim>\<open>Object.prototype\<close>. The properties found there are built-in functions,
  and, under \<^verbatim>\<open>__proto__\<close>, the prototype itself: all truthy, and turned into a
  string by \<^verbatim>\<open>+\<close>. The string of a built-in function is given as V8 prints it.
  An assignment to \<^verbatim>\<open>__proto__\<close> runs the setter of the prototype, which ignores a
  value that is not an object, unless the object has a property of that name itself.
\<close>

definition Object_prototype :: "string list" where
  "Object_prototype =
     [''constructor'', ''__defineGetter__'', ''__defineSetter__'', ''hasOwnProperty'',
      ''__lookupGetter__'', ''__lookupSetter__'', ''isPrototypeOf'', ''propertyIsEnumerable'',
      ''toString'', ''valueOf'', ''__proto__'', ''toLocaleString'']"

definition inherited_string :: "string \<Rightarrow> string option" where
  "inherited_string name =
     (if name = ''__proto__'' then Some ''[object Object]''
      else if name = ''constructor'' then Some ''function Object() { [native code] }''
      else if name \<in> set Object_prototype
        then Some (''function '' @ name @ ''() { [native code] }'')
      else None)"

text \<open>\<^verbatim>\<open>(currentStats[statName] || 0) + amount\<close>.\<close>

definition incremented :: "jsobj \<Rightarrow> string \<Rightarrow> int \<Rightarrow> jsval" where
  "incremented current statName amount =
     (case current statName of
        Some v \<Rightarrow> js_add (js_or (Some v) (JNum 0)) (JNum amount)
      | None \<Rightarrow>
          (case inherited_string statName of
             Some str \<Rightarrow> JStr (str @ js_numToString amount)
           | None \<Rightarrow> js_add (JNum 0) (JNum amount)))"

definition incrementStat ::
  "int \<Rightarrow> jsobj database \<Rightarrow> string \<Rightarrow> int \<Rightarrow> js_error + (jsobj \<times> jsobj database)" where
  "incrementStat now db statName amount =
     await (currentStats now db) (\<lambda>(current, db1).
       let current' =
             (if statName = ''__proto__'' \<and> current statName = None then current
              else current(statName \<mapsto> incremented current statName amount)) in
       await (saveUserStats db1 current') (\<lambda>db2. Inr (current', db2)))"

text \<open>
  An achievement rule. The \<^verbatim>\<open>icon\<close> of the source, an emoji only shown in the
  notification, is left out.
\<close>

record achievement =
  a_id :: string
  a_name :: string
  a_description :: string
  condition :: "jsobj \<Rightarrow> bool"

definition achievements :: "achievement list" where
  "achievements =
     [\<lparr> a_id = ''first_message'', a_name = ''First Steps'',
        a_description = ''Send your first message'',
        condition = (\<lambda>s. js_ge (s ''totalMessages'') 1) \<rparr>,
      \<lparr> a_id = ''chat_starter'', a_name = ''Chat Starter'',
        a_description = ''Create your first chat'',
        condition = (\<lambda>s. js_ge (s ''totalChats'') 1) \<rparr>,
      \<lparr> a_id = ''conversationalist'', a_name = ''Conversationalist'',
        a_description = ''Send 50 messages'',
        condition = (\<lambda>s. js_ge (s ''totalMessages'') 50) \<rparr>,
      \<lparr> a_id = ''chat_master'', a_name = ''Chat Master'',
        a_description = ''Create 10 chat sessions'',
        condition = (\<lambda>s. js_ge (s ''totalChats'') 10) \<rparr>,
      \<lparr> a_id = ''prompt_creator'', a_name = ''Prompt Creator'',
        a_description = ''Create your first quick prompt'',
        condition = (\<lambda>s. js_ge (s ''totalQuickPrompts'') 1) \<rparr>,
      \<lparr> a_id = ''efficiency_expert'', a_name = ''Efficiency Expert'',
        a_description = ''Create 5 quick prompts'',
        condition = (\<lambda>s. js_ge (s ''totalQuickPrompts'') 5) \<rparr>,
      \<lparr> a_id = ''marathon_chatter'', a_name = ''Marathon Chatter'',
        a_description = ''Send 200 messages'',
        condition = (\<lambda>s. js_ge (s ''totalMessages'') 200) \<rparr>,
      \<lparr> a_id = ''week_warrior'', a_name = ''Week Warrior'',
        a_description = ''Use the app for 7 consecutive days'',
        condition = (\<lambda>s. js_ge (s ''streakDays'') 7) \<rparr>,
      \<lparr> a_id = ''power_user'', a_name = ''Power User'',
        a_description = ''Spend 60 minutes chatting'',
        condition = (\<lambda>s. js_ge (s ''timeSpentChatting'') 60) \<rparr>,
      \<lparr> a_id = ''explorer'', a_name = ''Explorer'',
        a_description = ''Create 25 chat sessions'',
        condition = (\<lambda>s. js_ge (s ''totalChats'') 25) \<rparr>]"

text \<open>
  The loop of \<^verbatim>\<open>checkAchievements\<close> over the rules, on an array
  \<open>currentAchievements\<close>: the pair is \<open>(newAchievements, currentAchievements)\<close>.
\<close>

fun award ::
  "jsobj \<Rightarrow> achievement list \<Rightarrow> achievement list \<times> string list
     \<Rightarrow> achievement list \<times> string list" where
  "award stats [] acc = acc"
| "award stats (a # rest) (newAchievements, currentAchievements) =
     (if a_id a \<notin> set currentAchievements \<and> condition a stats
      then award stats rest (newAchievements @ [a], currentAchievements @ [a_id a])
      else award stats rest (newAchievements, currentAchievements))"

text \<open>
  The end of \<^verbatim>\<open>checkAchievements\<close>: the list is written to the stored statistics
  when something new was earned. The result is the new achievements, the argument
  object as the call leaves it, and the database.
\<close>

definition persist_achievements ::
  "int \<Rightarrow> jsobj database \<Rightarrow> jsobj \<Rightarrow> achievement list \<times> string list
     \<Rightarrow> js_error + (achievement list \<times> jsobj \<times> jsobj database)" where
  "persist_achievements now db stats' acc =
     (case acc of (newAchievements, currentAchievements) \<Rightarrow>
        if length newAchievements > 0
        then await (updateUserStats now db [''achievements'' \<mapsto> JArr currentAchievements])
               (\<lambda>(updated, db'). Inr (newAchievements, stats', db'))
        else Inr (newAchievements, stats', db))"

text \<open>
  \<^verbatim>\<open>checkAchievements\<close>. \<^verbatim>\<open>stats.achievements || []\<close> is the array of the argument
  itself when it has one, and the pushes then change the argument; it is a fresh empty
  array when the property is absent or falsy. A string there answers \<^verbatim>\<open>includes\<close> by
  substring and has no \<^verbatim>\<open>push\<close>; a non-zero number or an object has no
  \<^verbatim>\<open>includes\<close>: both throw \<^verbatim>\<open>TypeError\<close>.
\<close>

definition checkAchievements ::
  "int \<Rightarrow> jsobj database \<Rightarrow> jsobj
     \<Rightarrow> js_error + (achievement list \<times> jsobj \<times> jsobj database)" where
  "checkAchievements now db stats =
     (case js_or (stats ''achievements'') (JArr []) of
        JArr currentAchievements \<Rightarrow>
          (let acc = award stats achievements ([], currentAchievements);
               stats' = (if stats ''achievements'' = Some (JArr currentAchievements)
                         then stats(''achievements'' \<mapsto> JArr (snd acc)) else stats)
           in persist_achievements now db stats' acc)
      | JStr str \<Rightarrow>
          if list_ex (\<lambda>a. \<not> sublist (a_id a) str \<and> condition a stats) achievements
          then Inl TypeError else Inr ([], stats, db)
      | other \<Rightarrow> Inl TypeError)"

text \<open>
  The arithmetic of \<^verbatim>\<open>getUsageInsights\<close>, on numbers:
  \<^verbatim>\<open>Math.floor((now - joinDate) / (24 * 60 * 60 * 1000))\<close>, \<^verbatim>\<open>Math.max(d, 1)\<close> and
  \<^verbatim>\<open>Math.round(total / days)\<close>, the last with \<open>days\<close> at least 1. The quotients of
  integers are those of the integers, as the doubles give them for the timestamps and
  counts below \<open>2\<^sup>5\<^sup>3\<close>.
\<close>

definition round_div :: "int \<Rightarrow> int \<Rightarrow> int" where
  "round_div a b = (2 * a + b) div (2 * b)"

fun days_since :: "int \<Rightarrow> jsval \<Rightarrow> jsval" where
  "days_since now (JNum j) = JNum ((now - j) div (24 * 60 * 60 * 1000))"
| "days_since now JInfinity = JNegInfinity"
| "days_since now JNegInfinity = JInfinity"
| "days_since now other = JNaN"

fun max_1 :: "jsval \<Rightarrow> jsval" where
  "max_1 (JNum d) = JNum (max d 1)"
| "max_1 JInfinity = JInfinity"
| "max_1 JNegInfinity = JNum 1"
| "max_1 other = JNaN"

fun round_quotient :: "jsval \<Rightarrow> jsval \<Rightarrow> jsval" where
  "round_quotient (JNum t) (JNum d) = JNum (round_div t d)"
| "round_quotient (JNum t) JInfinity = JNum 0"
| "round_quotient JInfinity (JNum d) = JInfinity"
| "round_quotient JNegInfinity (JNum d) = JNegInfinity"
| "round_quotient t d = JNaN"

text \<open>
  \<^verbatim>\<open>getUsageInsights\<close>: the object that \<^verbatim>\<open>App.jsx\<close> passes to
  \<^verbatim>\<open>checkAchievements\<close>. It has no \<^verbatim>\<open>achievements\<close> property.
\<close>

definition getUsageInsights ::
  "int \<Rightarrow> jsobj database \<Rightarrow> js_error + (jsobj \<times> jsobj database)" where
  "getUsageInsights now db =
     await (currentStats now db) (\<lambda>(stats, db1).
       let daysSinceJoin =
             days_since now
               (case stats ''joinDate'' of None \<Rightarrow> JNaN | Some j \<Rightarrow> js_toNumber j);
           days = max_1 daysSinceJoin;
           average = (\<lambda>total. round_quotient (js_toNumber (js_or total (JNum 0))) days);
           earned = (case js_or (stats ''achievements'') (JArr []) of
                       JArr xs \<Rightarrow> Some (JNum (int (length xs)))
                     | JStr str \<Rightarrow> Some (JNum (int (length str)))
                     | other \<Rightarrow> None)
       in Inr ((\<lambda>name. None)
                (''totalMessages'' \<mapsto> js_or (stats ''totalMessages'') (JNum 0),
                 ''totalChats'' \<mapsto> js_or (stats ''totalChats'') (JNum 0),
                 ''totalQuickPrompts'' \<mapsto> js_or (stats ''totalQuickPrompts'') (JNum 0),
                 ''daysSinceJoin'' \<mapsto> js_or (Some daysSinceJoin) (JNum 1),
                 ''averageMessagesPerDay'' \<mapsto> average (stats ''totalMessages''),
                 ''averageChatsPerDay'' \<mapsto> average (stats ''totalChats''),
                 ''streakDays'' \<mapsto> js_or (stats ''streakDays'') (JNum 0),
                 ''timeSpentChatting'' \<mapsto> js_or (stats ''timeSpentChatting'') (JNum 0),
                 ''achievementsEarned'' := earned,
                 ''totalAchievements'' \<mapsto> JNum 10), db1))"

text \<open>
  \<^verbatim>\<open>updateStreakDays\<close>. \<open>dateString v\<close> stands for
  \<^verbatim>\<open>new Date(v).toDateString()\<close>, the local calendar day of a timestamp, which the
  platform computes.
\<close>

definition updateStreakDays ::
  "(jsval option \<Rightarrow> string) \<Rightarrow> int \<Rightarrow> jsobj database
     \<Rightarrow> js_error + (jsobj \<times> jsobj database)" where
  "updateStreakDays dateString now db =
     await (currentStats now db) (\<lambda>(stats, db1).
       let today = dateString (Some (JNum now));
           lastActiveDate = dateString (stats ''lastActiveDate'');
           yesterday = dateString (Some (JNum (now - 24 * 60 * 60 * 1000)));
           newStreakDays = js_or (stats ''streakDays'') (JNum 0)
       in if lastActiveDate = today then Inr (stats, db1)
          else updateUserStats now db1
                 [''streakDays'' \<mapsto>
                    (if lastActiveDate = yesterday then js_add newStreakDays (JNum 1)
                     else JNum 1),
                  ''lastActiveDate'' \<mapsto> JNum now])"

text \<open>
  With \<^verbatim>\<open>keyPath: 'id'\<close> the key of a record is its \<^verbatim>\<open>id\<close> property: an invariant
  of every store that \<^verbatim>\<open>putInStore\<close> fills.
\<close>

definition keyed_by_id :: "jsobj object_store \<Rightarrow> bool" where
  "keyed_by_id store = (\<forall>k obj. store k = Some obj \<longrightarrow> obj ''id'' = Some k)"

text \<open>
  The statistics a call works on: the record under \<^verbatim>\<open>'main'\<close>, or the initial
  statistics, which the call stores first when there is no record yet.
\<close>

definition stored_stats :: "int \<Rightarrow> jsobj object_store \<Rightarrow> jsobj" where
  "stored_stats now store =
     (case store (JStr ''main'') of
        Some s \<Rightarrow> s
      | None \<Rightarrow> [''id'' \<mapsto> JStr ''main''] ++ initial_stats now)"

text \<open>
  A local calendar for concrete instances, in a time zone that sets its clocks back by
  one hour during day 1: day 0 begins at timestamp 0 and has 24 hours, day 1 has 25
  hours, and every other day has 24. \<^verbatim>\<open>toDateString\<close> names the day, here by its
  number; a number outside the range of dates, and \<^verbatim>\<open>undefined\<close>, give
  \<^verbatim>\<open>Invalid Date\<close>. So does every other value in this calendar, which does not
  parse strings.
\<close>

definition local_day :: "int \<Rightarrow> int" where
  "local_day t =
     (let hour = 60 * 60 * 1000
      in if t < 24 * hour then t div (24 * hour)
         else if t < 49 * hour then 1
         else (t - hour) div (24 * hour))"

definition local_dateString :: "jsval option \<Rightarrow> string" where
  "local_dateString v =
     (case v of
        Some (JNum t) \<Rightarrow>
          if \<bar>t\<bar> \<le> 8640000000000000 then js_numToString (local_day t)
          else ''Invalid Date''
      | other \<Rightarrow> ''Invalid Date'')"

text \<open>
  The statistics lines that \<^verbatim>\<open>handleCreateNewChat\<close>, \<^verbatim>\<open>handleUpdateChatSession\<close> and
  \<^verbatim>\<open>handleSaveQuickPrompt\<close> of \<^verbatim>\<open>App.jsx\<close> share, for the counters
  \<^verbatim>\<open>totalChats\<close>, \<^verbatim>\<open>totalMessages\<close> and \<^verbatim>\<open>totalQuickPrompts\<close>: the counter is
  incremented, and \<^verbatim>\<open>checkAchievements\<close> is called on the usage insights.
\<close>

definition updateStatsAndCheck ::
  "int \<Rightarrow> jsobj database \<Rightarrow> string \<Rightarrow> js_error + (achievement list \<times> jsobj database)" where
  "updateStatsAndCheck now db statName =
     await (incrementStat now db statName 1) (\<lambda>(incremented, db1).
       await (getUsageInsights now db1) (\<lambda>(stats, db2).
         await (checkAchievements now db2 stats) (\<lambda>(newAchievements, stats', db3).
           Inr (newAchievements, db3))))"

text \<open>The counter and the threshold of each rule, in the order of the table.\<close>

definition thresholds :: "(string \<times> int) list" where
  "thresholds =
     [(''totalMessages'', 1), (''totalChats'', 1), (''totalMessages'', 50),
      (''totalChats'', 10), (''totalQuickPrompts'', 1), (''totalQuickPrompts'', 5),
      (''totalMessages'', 200), (''streakDays'', 7), (''timeSpentChatting'', 60),
      (''totalChats'', 25)]"

section \<open>The embedding service (embeddingService.js)\<close>

text \<open>
  Vectors hold real numbers, and the arithmetic of the service is that of the reals, with
  the outcomes JavaScript gives a division on a zero divisor. The rounding and the
  overflow of the doubles are left out here; \<^verbatim>\<open>cosineSimilarity\<close> is given a second
  time below, over the doubles.
\<close>

datatype js_real = Real real | Infinity | MinusInfinity | NaN

definition js_divide :: "real \<Rightarrow> real \<Rightarrow> js_real" where
  "js_divide a b =
     (if b \<noteq> 0 then Real (a / b)
      else if a > 0 then Infinity else if a < 0 then MinusInfinity else NaN)"

fun js_minus :: "js_real \<Rightarrow> js_real \<Rightarrow> js_real" where
  "js_minus (Real a) (Real b) = Real (a - b)"
| "js_minus NaN b = NaN"
| "js_minus a NaN = NaN"
| "js_minus Infinity Infinity = NaN"
| "js_minus MinusInfinity MinusInfinity = NaN"
| "js_minus Infinity b = Infinity"
| "js_minus MinusInfinity b = MinusInfinity"
| "js_minus a Infinity = MinusInfinity"
| "js_minus a MinusInfinity = Infinity"

text \<open>\<^verbatim>\<open>v > c\<close> against a real constant.\<close>

fun js_greater :: "js_real \<Rightarrow> real \<Rightarrow> bool" where
  "js_greater (Real a) c = (a > c)"
| "js_greater Infinity c = True"
| "js_greater MinusInfinity c = False"
| "js_greater NaN c = False"

text \<open>
  A \<^verbatim>\<open>Map\<close> is an association list in insertion order: \<^verbatim>\<open>set\<close> on a key it has keeps
  the key's place, and a new key goes last.
\<close>

record embedding_service =
  vocabulary :: "(string \<times> nat) list"
  idfScores :: "(string \<times> real) list"
  documentCount :: nat

definition new_service :: embedding_service where
  "new_service = \<lparr> vocabulary = [], idfScores = [], documentCount = 0 \<rparr>"

text \<open>
  \<^verbatim>\<open>toLowerCase\<close> on the code units below 256: the letters \<^verbatim>\<open>A\<close> to \<^verbatim>\<open>Z\<close>, and
  the capital letters of Latin-1, from \<open>0xC0\<close> to \<open>0xDE\<close> without the
  multiplication sign \<open>0xD7\<close>, whose small letters lie 32 above them.
\<close>

definition upper_case :: string where
  "upper_case =
     ''ABCDEFGHIJKLMNOPQRSTUVWXYZ'' @
        [CHR 0xC0, CHR 0xC1, CHR 0xC2, CHR 0xC3, CHR 0xC4, CHR 0xC5, CHR 0xC6, CHR 0xC7,
         CHR 0xC8, CHR 0xC9, CHR 0xCA, CHR 0xCB, CHR 0xCC, CHR 0xCD, CHR 0xCE, CHR 0xCF,
         CHR 0xD0, CHR 0xD1, CHR 0xD2, CHR 0xD3, CHR 0xD4, CHR 0xD5, CHR 0xD6, CHR 0xD8,
         CHR 0xD9, CHR 0xDA, CHR 0xDB, CHR 0xDC, CHR 0xDD, CHR 0xDE]"

definition lower_case :: string where
  "lower_case =
     ''abcdefghijklmnopqrstuvwxyz'' @
        [CHR 0xE0, CHR 0xE1, CHR 0xE2, CHR 0xE3, CHR 0xE4, CHR 0xE5, CHR 0xE6, CHR 0xE7,
         CHR 0xE8, CHR 0xE9, CHR 0xEA, CHR 0xEB, CHR 0xEC, CHR 0xED, CHR 0xEE, CHR 0xEF,
         CHR 0xF0, CHR 0xF1, CHR 0xF2, CHR 0xF3, CHR 0xF4, CHR 0xF5, CHR 0xF6, CHR 0xF8,
         CHR 0xF9, CHR 0xFA, CHR 0xFB, CHR 0xFC, CHR 0xFD, CHR 0xFE]"

definition toLowerCase :: "string \<Rightarrow> string" where
  "toLowerCase s =
     map (\<lambda>c. case map_of (zip upper_case lower_case) c of Some l \<Rightarrow> l | None \<Rightarrow> c) s"

definition is_word :: "char \<Rightarrow> bool" where
  "is_word c =
     (c \<in> set ''abcdefghijklmnopqrstuvwxyzABCDEFGHIJKLMNOPQRSTUVWXYZ0123456789_'')"

text \<open>\<^verbatim>\<open>split(/\s+/)\<close>: the pieces between the runs of white space, the empty piece
  before a leading run and after a trailing one included.\<close>

function split_spaces :: "string \<Rightarrow> string list" where
  "split_spaces s =
     (let piece = takeWhile (\<lambda>c. \<not> is_space c) s;
          rest = dropWhile (\<lambda>c. \<not> is_space c) s
      in if rest = [] then [piece] else piece # split_spaces (dropWhile is_space rest))"
  by pat_completeness auto
termination
proof (relation "measure length")
  show "wf (measure length)" by simp
next
  fix s :: string and piece rest
  assume r: "rest = dropWhile (\<lambda>c. \<not> is_space c) s" and ne: "rest \<noteq> []"
  then have "is_space (hd rest)"
    using hd_dropWhile[of "\<lambda>c. \<not> is_space c" s] by simp
  then have "length (dropWhile is_space rest) < length rest"
    using ne by (cases rest) (auto simp: le_imp_less_Suc length_dropWhile_le)
  moreover have "length rest \<le> length s"
    unfolding r by (rule length_dropWhile_le)
  ultimately show "(dropWhile is_space rest, s) \<in> measure length" by simp
qed

declare split_spaces.simps [simp del]

definition tokenize :: "string \<Rightarrow> string list" where
  "tokenize text =
     filter (\<lambda>token. length token > 2)
       (split_spaces
          (map (\<lambda>c. if is_word c \<or> is_space c then c else CHR '' '') (toLowerCase text)))"

definition calculateTF :: "string list \<Rightarrow> (string \<times> real) list" where
  "calculateTF tokens =
     (let totalTokens = length tokens;
          counts = foldl (\<lambda>tf token.
                      AList.update token
                        ((case map_of tf token of None \<Rightarrow> 0 | Some n \<Rightarrow> n) + 1) tf)
                    ([] :: (string \<times> nat) list) tokens
      in map (\<lambda>(token, count). (token, real count / real totalTokens)) counts)"

text \<open>A \<^verbatim>\<open>Set\<close> of the tokens, in the order of their first occurrence.\<close>

definition uniqueTokens :: "string list \<Rightarrow> string list" where
  "uniqueTokens tokens = rev (remdups (rev tokens))"

definition updateIDF :: "embedding_service \<Rightarrow> string list \<Rightarrow> embedding_service" where
  "updateIDF svc tokens =
     (let vocabulary' =
            foldl (\<lambda>v token.
                     let v0 = (if map_of v token = None then AList.update token 0 v else v)
                     in case map_of v0 token of
                          Some n \<Rightarrow> AList.update token (n + 1) v0
                        | None \<Rightarrow> v0)
                  (vocabulary svc) (uniqueTokens tokens);
          documentCount' = documentCount svc + 1;
          idfScores' =
            foldl (\<lambda>idf (token, docCount).
                     AList.update token (ln (real documentCount' / real docCount)) idf)
                  (idfScores svc) vocabulary'
      in \<lparr> vocabulary = vocabulary', idfScores = idfScores', documentCount = documentCount' \<rparr>)"

definition generateEmbedding :: "embedding_service \<Rightarrow> string \<Rightarrow> real list" where
  "generateEmbedding svc text =
     (let tokens = tokenize text;
          tf = calculateTF tokens;
          topTokens = take 100 (map fst (vocabulary svc));
          embedding =
            map (\<lambda>token.
                   (case map_of tf token of None \<Rightarrow> 0 | Some tfScore \<Rightarrow> tfScore) *
                   (case map_of (idfScores svc) token of None \<Rightarrow> 0 | Some idfScore \<Rightarrow> idfScore))
                topTokens
      in take 100 (embedding @ replicate (100 - length embedding) 0))"

text \<open>The loop of \<^verbatim>\<open>cosineSimilarity\<close> over two vectors of the same length, on
  \<open>(dotProduct, norm1, norm2)\<close>.\<close>

fun accumulate :: "real list \<Rightarrow> real list \<Rightarrow> real \<times> real \<times> real \<Rightarrow> real \<times> real \<times> real" where
  "accumulate (x # xs) (y # ys) (dotProduct, norm1, norm2) =
     accumulate xs ys (dotProduct + x * y, norm1 + x * x, norm2 + y * y)"
| "accumulate xs ys acc = acc"

definition cosineSimilarity :: "real list \<Rightarrow> real list \<Rightarrow> js_real" where
  "cosineSimilarity vec1 vec2 =
     (if length vec1 \<noteq> length vec2 then Real 0
      else
        (case accumulate vec1 vec2 (0, 0, 0) of (dotProduct, norm1, norm2) \<Rightarrow>
           if norm1 = 0 \<or> norm2 = 0 then Real 0
           else js_divide dotProduct (sqrt norm1 * sqrt norm2)))"

record embedding_record =
  e_id :: string
  e_chatId :: string
  e_messageId :: string
  e_text :: string
  embedding :: "real list"
  e_timestamp :: int

record search_result = embedding_record +
  similarity :: js_real

text \<open>
  \<^verbatim>\<open>sort((a, b) => b.similarity - a.similarity)\<close>: the stable sort, where an element
  moves behind a later one only when the comparator is positive; a \<^verbatim>\<open>NaN\<close> from the
  comparator counts as 0.
\<close>

definition comparator :: "search_result \<Rightarrow> search_result \<Rightarrow> js_real" where
  "comparator a b = js_minus (similarity b) (similarity a)"

fun insert_sorted :: "search_result \<Rightarrow> search_result list \<Rightarrow> search_result list" where
  "insert_sorted a [] = [a]"
| "insert_sorted a (b # bs) =
     (if js_greater (comparator a b) 0 then b # insert_sorted a bs else a # b # bs)"

fun sort_results :: "search_result list \<Rightarrow> search_result list" where
  "sort_results [] = []"
| "sort_results (a # as) = insert_sorted a (sort_results as)"

text \<open>\<^verbatim>\<open>slice(0, limit)\<close>: a negative limit counts from the end.\<close>

definition slice0 :: "int \<Rightarrow> 'a list \<Rightarrow> 'a list" where
  "slice0 limit xs =
     (if limit < 0 then take (nat (int (length xs) + limit)) xs else take (nat limit) xs)"

text \<open>
  \<^verbatim>\<open>semanticSearch\<close>. \<open>getEmbeddingsByChat\<close> is the read of the \<^verbatim>\<open>chatId\<close> index of
  the \<^verbatim>\<open>embeddings\<close> store, which may reject; \<^verbatim>\<open>null\<close> is \<open>None\<close>. The
  \<^verbatim>\<open>catch\<close> turns a rejected read into the empty list.
\<close>

definition semanticSearch ::
  "embedding_service \<Rightarrow> (string \<Rightarrow> js_error + embedding_record list)
     \<Rightarrow> string option \<Rightarrow> string option \<Rightarrow> int \<Rightarrow> search_result list" where
  "semanticSearch svc getEmbeddingsByChat query chatId limit =
     (case query of
        None \<Rightarrow> []
      | Some q \<Rightarrow>
          if q = [] \<or> length q < 3 then []
          else
            (let queryEmbedding = generateEmbedding svc q;
                 embeddings =
                   (case chatId of
                      None \<Rightarrow> Inr []
                    | Some c \<Rightarrow> if c \<noteq> [] then getEmbeddingsByChat c else Inr [])
             in case embeddings of
                  Inl error \<Rightarrow> []
                | Inr records \<Rightarrow>
                    (let results =
                           map (\<lambda>e. embedding_record.extend e
                                  \<lparr> similarity = cosineSimilarity queryEmbedding (embedding e) \<rparr>)
                               records
                     in slice0 limit
                          (sort_results
                             (filter (\<lambda>result. js_greater (similarity result) (1 / 10))
                                results)))))"

text \<open>The similarity of a result as a real number, for the order of the results.\<close>

definition sim_value :: "search_result \<Rightarrow> real" where
  "sim_value r = (case similarity r of Real x \<Rightarrow> x | other \<Rightarrow> 0)"

subsection \<open>Cosine similarity over the doubles\<close>

text \<open>
  A real number is rounded to the nearest double, and to the one with the even
  significand when two are equally near. The doubles around a number \<open>x\<close> are the
  integer multiples of \<open>2\<^sup>e\<^sup>-\<^sup>5\<^sup>2\<close>, where \<open>2\<^sup>e\<close> is the power of two at or below
  \<open>\<bar>x\<bar>\<close> and \<open>e\<close> is at least \<open>-1022\<close>; a number that rounds to \<open>2\<^sup>1\<^sup>0\<^sup>2\<^sup>4\<close> or
  beyond becomes infinite. The sign of a zero is not kept.
\<close>

definition round_even :: "real \<Rightarrow> int" where
  "round_even x =
     (let f = \<lfloor>x\<rfloor>
      in if x - of_int f < 1 / 2 then f
         else if x - of_int f > 1 / 2 then f + 1
         else if even f then f else f + 1)"

definition double_exponent :: "real \<Rightarrow> int" where
  "double_exponent x = max \<lfloor>log 2 \<bar>x\<bar>\<rfloor> (- 1022)"

definition to_double :: "real \<Rightarrow> js_real" where
  "to_double x =
     (if x = 0 then Real 0
      else
        (let ulp = 2 powr of_int (double_exponent x - 52);
             rounded = of_int (round_even (x / ulp)) * ulp
         in if rounded \<ge> 2 ^ 1024 then Infinity
            else if rounded \<le> - (2 ^ 1024) then MinusInfinity
            else Real rounded))"

text \<open>The operations of \<^verbatim>\<open>cosineSimilarity\<close> on doubles: \<^verbatim>\<open>+\<close>, \<^verbatim>\<open>*\<close>,
  \<^verbatim>\<open>Math.sqrt\<close> and \<^verbatim>\<open>/\<close>.\<close>

fun double_plus :: "js_real \<Rightarrow> js_real \<Rightarrow> js_real" where
  "double_plus (Real a) (Real b) = to_double (a + b)"
| "double_plus NaN b = NaN"
| "double_plus a NaN = NaN"
| "double_plus (Real a) b = b"
| "double_plus a (Real b) = a"
| "double_plus a b = (if a = b then a else NaN)"

fun double_times :: "js_real \<Rightarrow> js_real \<Rightarrow> js_real" where
  "double_times (Real a) (Real b) = to_double (a * b)"
| "double_times NaN b = NaN"
| "double_times a NaN = NaN"
| "double_times (Real a) b =
     (if a = 0 then NaN else if (a > 0) = (b = Infinity) then Infinity else MinusInfinity)"
| "double_times a (Real b) =
     (if b = 0 then NaN else if (b > 0) = (a = Infinity) then Infinity else MinusInfinity)"
| "double_times a b = (if a = b then Infinity else MinusInfinity)"

fun double_sqrt :: "js_real \<Rightarrow> js_real" where
  "double_sqrt (Real a) = (if a < 0 then NaN else to_double (sqrt a))"
| "double_sqrt Infinity = Infinity"
| "double_sqrt other = NaN"

fun double_divide :: "js_real \<Rightarrow> js_real \<Rightarrow> js_real" where
  "double_divide (Real a) (Real b) =
     (if b \<noteq> 0 then to_double (a / b)
      else if a > 0 then Infinity else if a < 0 then MinusInfinity else NaN)"
| "double_divide NaN b = NaN"
| "double_divide a NaN = NaN"
| "double_divide (Real a) b = Real 0"
| "double_divide a (Real b) =
     (if (b \<ge> 0) = (a = Infinity) then Infinity else MinusInfinity)"
| "double_divide a b = NaN"

fun accumulate_double ::
  "js_real list \<Rightarrow> js_real list \<Rightarrow> js_real \<times> js_real \<times> js_real
     \<Rightarrow> js_real \<times> js_real \<times> js_real" where
  "accumulate_double (x # xs) (y # ys) (dotProduct, norm1, norm2) =
     accumulate_double xs ys
       (double_plus dotProduct (double_times x y),
        double_plus norm1 (double_times x x),
        double_plus norm2 (double_times y y))"
| "accumulate_double xs ys acc = acc"

definition cosineSimilarity_double :: "js_real list \<Rightarrow> js_real list \<Rightarrow> js_real" where
  "cosineSimilarity_double vec1 vec2 =
     (if length vec1 \<noteq> length vec2 then Real 0
      else
        (case accumulate_double vec1 vec2 (Real 0, Real 0, Real 0) of
           (dotProduct, norm1, norm2) \<Rightarrow>
             if norm1 = Real 0 \<or> norm2 = Real 0 then Real 0
             else double_divide dotProduct (double_times (double_sqrt norm1) (double_sqrt norm2))))"

section \<open>Code blocks in a message (CodeEditor.jsx)\<close>

text \<open>
  \<^verbatim>\<open>extractCodeBlocks\<close> runs the regular expression
  \<^verbatim>\<open>/```(\w+)?\n?([\s\S]*?)```/g\<close> over the text. The matcher below follows the
  expression piece by piece, with the choices in the order in which the backtracking
  engine tries them. \<^verbatim>\<open>\w\<close> matches the letters and digits of ASCII and the
  underscore, and \<^verbatim>\<open>[\s\S]\<close> every code unit.
\<close>

definition fence :: string where
  "fence = [CHR 0x60, CHR 0x60, CHR 0x60]"

text \<open>\<^verbatim>\<open>([\s\S]*?)```\<close>: the shortest content that a fence follows, and the text after
  that fence.\<close>

fun find_fence :: "string \<Rightarrow> (string \<times> string) option" where
  "find_fence [] = None"
| "find_fence (c # cs) =
     (if prefix fence (c # cs) then Some ([], drop 3 (c # cs))
      else (case find_fence cs of
              None \<Rightarrow> None
            | Some (content, rest) \<Rightarrow> Some (c # content, rest)))"

text \<open>\<^verbatim>\<open>\n?\<close> and what follows it: the line feed is taken when there is one, and left
  when the rest does not match behind it.\<close>

definition try_newline :: "string \<Rightarrow> (string \<times> string) option" where
  "try_newline r =
     (case r of
        [] \<Rightarrow> find_fence r
      | c # r' \<Rightarrow>
          if c = CHR 0x0A
          then (case find_fence r' of Some m \<Rightarrow> Some m | None \<Rightarrow> find_fence r)
          else find_fence r)"

text \<open>\<^verbatim>\<open>(\w+)?\<close> and what follows it: the longest run of word characters first, then
  the shorter ones, then no group at all (\<open>None\<close>, the \<^verbatim>\<open>undefined\<close> of the match).\<close>

fun try_tags :: "nat \<Rightarrow> string \<Rightarrow> (string option \<times> string \<times> string) option" where
  "try_tags 0 r =
     (case try_newline r of None \<Rightarrow> None | Some (content, rest) \<Rightarrow> Some (None, content, rest))"
| "try_tags (Suc k) r =
     (case try_newline (drop (Suc k) r) of
        Some (content, rest) \<Rightarrow> Some (Some (take (Suc k) r), content, rest)
      | None \<Rightarrow> try_tags k r)"

text \<open>The expression matched at the start of a text: the two groups and the text after
  the match.\<close>

definition match_at :: "string \<Rightarrow> (string option \<times> string \<times> string) option" where
  "match_at s =
     (if prefix fence s
      then (let r = drop 3 s in try_tags (length (takeWhile is_word r)) r)
      else None)"

text \<open>\<^verbatim>\<open>exec\<close>: the match at the leftmost position that has one, with the text from
  that position on.\<close>

fun exec :: "string \<Rightarrow> (string \<times> string option \<times> string \<times> string) option" where
  "exec [] = None"
| "exec (c # cs) =
     (case match_at (c # cs) of
        Some (group1, group2, rest) \<Rightarrow> Some (c # cs, group1, group2, rest)
      | None \<Rightarrow> exec cs)"

record code_block =
  language :: string
  code :: string
  fullMatch :: string

lemma find_fence_shorter: "find_fence s = Some (content, rest) \<Longrightarrow> length rest < length s"
  by (induction s arbitrary: content) (auto split: if_splits option.splits)

lemma try_newline_shorter: "try_newline s = Some (content, rest) \<Longrightarrow> length rest < length s"
  by (cases s)
    (auto simp: try_newline_def split: if_splits option.splits
      dest!: find_fence_shorter)

lemma try_tags_shorter: "try_tags k s = Some (g, content, rest) \<Longrightarrow> length rest < length s"
  by (induction k) (auto split: option.splits dest!: try_newline_shorter)

lemma match_at_shorter: "match_at s = Some (g, content, rest) \<Longrightarrow> length rest < length s"
  by (auto simp: match_at_def Let_def split: if_splits dest!: try_tags_shorter)

lemma exec_shorter: "exec s = Some (start, g, content, rest) \<Longrightarrow> length rest < length s"
  by (induction s) (auto split: option.splits dest!: match_at_shorter)

text \<open>The loop \<^verbatim>\<open>while ((match = codeBlockRegex.exec(text)) !== null)\<close>: the next
  search starts where the last match ended.\<close>

function extractCodeBlocks :: "string \<Rightarrow> code_block list" where
  "extractCodeBlocks str =
     (case exec str of
        None \<Rightarrow> []
      | Some (start, group1, group2, rest) \<Rightarrow>
          \<lparr> language = (case group1 of
                          None \<Rightarrow> ''text''
                        | Some tag \<Rightarrow> if tag = [] then ''text'' else tag),
            code = trim group2,
            fullMatch = take (length start - length rest) start \<rparr>
          # extractCodeBlocks rest)"
  by pat_completeness auto
termination
  by (relation "measure length") (auto dest: exec_shorter)

declare extractCodeBlocks.simps [simp del]

text \<open>
  The fenced blocks of a text. The fences cut the text into pieces; every second piece,
  when a fence closes it, is the body of a block.
\<close>

function pieces :: "string \<Rightarrow> string list" where
  "pieces s =
     (case find_fence s of None \<Rightarrow> [s] | Some (before, after) \<Rightarrow> before # pieces after)"
  by pat_completeness auto
termination
  by (relation "measure length") (auto dest: find_fence_shorter)

declare pieces.simps [simp del]

fun fenced_bodies :: "string list \<Rightarrow> string list" where
  "fenced_bodies (outside # body # next # others) = body # fenced_bodies (next # others)"
| "fenced_bodies other = []"

text \<open>
  What the expression takes from the body of a block: its leading run of word characters
  as the first group, and what follows that run as the second.
\<close>

definition matched_tag :: "string \<Rightarrow> string" where
  "matched_tag body = takeWhile is_word body"

definition matched_content :: "string \<Rightarrow> string" where
  "matched_content body = dropWhile is_word body"

definition matched_blocks :: "string \<Rightarrow> code_block list" where
  "matched_blocks str =
     map (\<lambda>body.
            \<lparr> language = (if matched_tag body = [] then ''text'' else matched_tag body),
              code = trim (matched_content body),
              fullMatch = fence @ body @ fence \<rparr>)
         (fenced_bodies (pieces str))"

text \<open>
  The blocks in the words of the specification. The language tag of a fence is what
  stands behind the opening fence on its line, without the white space around it, and the
  fenced content is what stands on the lines after that one, up to the closing fence.
\<close>

definition opening_line :: "string \<Rightarrow> string" where
  "opening_line body = takeWhile (\<lambda>c. c \<noteq> CHR 0x0A) body"

definition language_tag :: "string \<Rightarrow> string" where
  "language_tag body = trim (opening_line body)"

definition fenced_content :: "string \<Rightarrow> string" where
  "fenced_content body = drop (Suc (length (opening_line body))) body"

definition fenced_blocks :: "string \<Rightarrow> code_block list" where
  "fenced_blocks str =
     map (\<lambda>body.
            \<lparr> language = (if language_tag body = [] then ''text'' else language_tag body),
              code = trim (fenced_content body),
              fullMatch = fence @ body @ fence \<rparr>)
         (fenced_bodies (pieces str))"

text \<open>A tag made of word characters: the opening line is a run of word characters,
  with nothing but white space behind it.\<close>

definition word_tagged :: "string \<Rightarrow> bool" where
  "word_tagged body = list_all is_space (dropWhile is_word (opening_line body))"

section \<open>Chat sessions (chatLogicService.js)\<close>

text \<open>
  A message and a chat session, with the fields the objects built in
  \<^verbatim>\<open>createNewChatSession\<close> carry. Identifiers are strings, timestamps are the
  millisecond counts of \<^verbatim>\<open>Date.now()\<close>.
\<close>

record message =
  m_id :: string
  m_sender :: string
  m_text :: string
  m_timestamp :: int
  m_isLoading :: "bool option"
  m_isError :: "bool option"

record chat_session =
  s_id :: string
  s_title :: string
  s_messages :: "message list"
  s_createdAt :: int
  s_lastUpdatedAt :: int
  s_systemInstruction :: string

text \<open>\<^verbatim>\<open>Array.prototype.findIndex\<close>: the first index whose element satisfies the
  predicate, \<open>-1\<close> when there is none.\<close>

fun findIndex :: "('a \<Rightarrow> bool) \<Rightarrow> 'a list \<Rightarrow> int" where
  "findIndex P [] = -1"
| "findIndex P (x # xs) =
     (if P x then 0 else (let i = findIndex P xs in if i < 0 then -1 else i + 1))"

record deletion_result =
  updatedSessions :: "chat_session list"
  newActiveSessionId :: "string option"

text \<open>
  \<^verbatim>\<open>calculateNextStateAfterDeletion\<close>. The active id is \<open>None\<close> for
  \<^verbatim>\<open>null\<close>. Every index read of the source sits under the length test that
  guards it, and is written here under the same test.
\<close>

definition calculateNextStateAfterDeletion ::
  "chat_session list \<Rightarrow> string \<Rightarrow> string option \<Rightarrow> deletion_result" where
  "calculateNextStateAfterDeletion currentSessions sessionIdToDelete currentActiveSessionId =
     (let originalIndexToDelete = findIndex (\<lambda>s. s_id s = sessionIdToDelete) currentSessions;
          updated = filter (\<lambda>session. s_id session \<noteq> sessionIdToDelete) currentSessions;
          newActive =
            (if currentActiveSessionId = Some sessionIdToDelete then
               (if length updated = 0 then None
                else if originalIndexToDelete \<ge> 0 then
                  (if originalIndexToDelete < int (length updated)
                   then Some (s_id (updated ! nat originalIndexToDelete))
                   else Some (s_id (updated ! (length updated - 1))))
                else Some (s_id (updated ! 0)))
             else
               (if length updated = 0 then None
                else if currentActiveSessionId = None then Some (s_id (updated ! 0))
                else if \<not> list_ex (\<lambda>s. Some (s_id s) = currentActiveSessionId) updated
                  then Some (s_id (updated ! 0))
                else currentActiveSessionId))
      in \<lparr> updatedSessions = updated, newActiveSessionId = newActive \<rparr>)"

text \<open>\<^verbatim>\<open>createNewChatSession\<close>, with \<open>timestamp\<close> the reading of \<^verbatim>\<open>Date.now()\<close>.\<close>

definition createNewChatSession :: "int \<Rightarrow> chat_session" where
  "createNewChatSession timestamp =
     \<lparr> s_id = js_numToString timestamp,
       s_title = ''New Chat'',
       s_messages =
         [\<lparr> m_id = js_numToString (timestamp + 1),
            m_sender = ''bot'',
            m_text = ''Welcome to Patel Chat! I'' @ [CHR 0x27] @ ''m your AI assistant, ready to help with your queries, search the web, or just chat. How can I assist you today?'',
            m_timestamp = timestamp + 1,
            m_isLoading = Some False,
            m_isError = None \<rparr>],
       s_createdAt = timestamp,
       s_lastUpdatedAt = timestamp,
       s_systemInstruction = [] \<rparr>"

text \<open>
  The messages that \<^verbatim>\<open>handleSendMessage\<close> of \<^verbatim>\<open>ChatArea.jsx\<close> builds: the user's
  message, the reply, and the reply that reports an error.
\<close>

definition userMessage :: "int \<Rightarrow> string \<Rightarrow> message" where
  "userMessage now messageText =
     \<lparr> m_id = ''msg-'' @ js_numToString now,
       m_sender = ''user'',
       m_text = trim messageText,
       m_timestamp = now,
       m_isLoading = None,
       m_isError = None \<rparr>"

definition aiMessage :: "int \<Rightarrow> string \<Rightarrow> message" where
  "aiMessage now response =
     \<lparr> m_id = ''msg-'' @ js_numToString now @ ''-ai'',
       m_sender = ''ai'',
       m_text = response,
       m_timestamp = now,
       m_isLoading = None,
       m_isError = None \<rparr>"

definition errorMessage :: "int \<Rightarrow> string \<Rightarrow> message" where
  "errorMessage now error_message =
     \<lparr> m_id = ''msg-'' @ js_numToString now @ ''-error'',
       m_sender = ''ai'',
       m_text = ''Sorry, I encountered an error: '' @ error_message,
       m_timestamp = now,
       m_isLoading = None,
       m_isError = Some True \<rparr>"

text \<open>A session that carries only an identifier, for concrete instances.\<close>

definition session_with_id :: "string \<Rightarrow> chat_session" where
  "session_with_id i =
     \<lparr> s_id = i, s_title = ''New Chat'', s_messages = [], s_createdAt = 0,
       s_lastUpdatedAt = 0, s_systemInstruction = [] \<rparr>"

section \<open>Put, get and delete on a store\<close>

lemma create_if_missing_keeps: "d s = Some st \<Longrightarrow> create_if_missing n d s = Some st"
  by (auto simp: create_if_missing_def)

lemma create_if_missing_creates: "d s = None \<Longrightarrow> create_if_missing s d s = Some Map.empty"
  by (simp add: create_if_missing_def)

lemma create_if_missing_other: "n \<noteq> s \<Longrightarrow> create_if_missing n d s = d s"
  by (simp add: create_if_missing_def)

lemma create_missing_keeps:
  "d s = Some st \<Longrightarrow> fold create_if_missing names d s = Some st"
  by (induction names arbitrary: d) (simp_all add: create_if_missing_keeps)

lemma create_missing_creates:
  "s \<in> set names \<Longrightarrow> d s = None \<Longrightarrow> fold create_if_missing names d s = Some Map.empty"
proof (induction names arbitrary: d)
  case Nil
  then show ?case by simp
next
  case (Cons n names)
  show ?case
  proof (cases "n = s")
    case True
    then show ?thesis
      using Cons.prems by (simp add: create_missing_keeps create_if_missing_creates)
  next
    case False
    then have "create_if_missing n d s = None" "s \<in> set names"
      using Cons.prems by (simp_all add: create_if_missing_other)
    then show ?thesis using Cons.IH by simp
  qed
qed

lemma onupgradeneeded_stores:
  "storeName \<in> set STORES \<Longrightarrow> onupgradeneeded Map.empty storeName = Some Map.empty"
  unfolding onupgradeneeded_def by (rule create_missing_creates) simp_all

lemma onupgradeneeded_keeps:
  "db storeName = Some st \<Longrightarrow> onupgradeneeded db storeName = Some st"
  unfolding onupgradeneeded_def by (rule create_missing_keeps)

lemma put_then_get:
  assumes "db storeName = Some st" and "item_id item = Some (JStr k)"
  shows "\<exists>db'. putInStore item_id db storeName item = Inr db' \<and>
           getFromStore db' storeName (JStr k) = Inr (Some item)"
  using assms by (simp add: putInStore_def getFromStore_def)

lemma delete_then_get:
  assumes "db storeName = Some st"
  shows "\<exists>db'. deleteFromStore db storeName (JStr k) = Inr db' \<and>
           getFromStore db' storeName (JStr k) = Inr None"
  using assms by (simp add: deleteFromStore_def getFromStore_def)

lemma run_op_absent:
  assumes "db storeName = Some st" and "st ident = None"
    and "\<forall>item. op = Put storeName item \<longrightarrow> item_id item \<noteq> Some ident"
  shows "\<exists>st'. run_op item_id db op storeName = Some st' \<and> st' ident = None"
  using assms
  by (cases op) (auto simp: putInStore_def deleteFromStore_def split: option.splits)

lemma run_ops_absent:
  assumes "db storeName = Some st" and "st ident = None"
    and "\<forall>item. Put storeName item \<in> set ops \<longrightarrow> item_id item \<noteq> Some ident"
  shows "\<exists>st'. run_ops item_id db ops storeName = Some st' \<and> st' ident = None"
  using assms
proof (induction ops arbitrary: db st)
  case Nil
  then show ?case by (simp add: run_ops_def)
next
  case (Cons op ops)
  from Cons.prems obtain st1 where 1: "run_op item_id db op storeName = Some st1" "st1 ident = None"
    using run_op_absent[of db storeName st ident op item_id] by auto
  from Cons.IH[of "run_op item_id db op" st1] 1 Cons.prems(3) show ?case by (simp add: run_ops_def)
qed

text \<open>
  Claim C1. For every store of the database and every item whose \<^verbatim>\<open>id\<close> is a string:
  \<^verbatim>\<open>putInStore\<close> resolves and \<^verbatim>\<open>getFromStore\<close> then returns that item;
  \<^verbatim>\<open>deleteFromStore\<close> resolves and \<^verbatim>\<open>getFromStore\<close> then returns \<^verbatim>\<open>null\<close>;
  and in a database opened fresh, after any history of puts and deletes none of which
  put an item of that id into the store, \<^verbatim>\<open>getFromStore\<close> returns \<^verbatim>\<open>null\<close>.
\<close>

theorem store_put_get_delete:
  "(db storeName = Some st \<and> item_id item = Some (JStr k) \<longrightarrow>
      (\<exists>db'. putInStore item_id db storeName item = Inr db' \<and>
             getFromStore db' storeName (JStr k) = Inr (Some item)) \<and>
      (\<exists>db'. deleteFromStore db storeName (JStr k) = Inr db' \<and>
             getFromStore db' storeName (JStr k) = Inr None)) \<and>
   (storeName \<in> set STORES \<and>
      (\<forall>x. Put storeName x \<in> set ops \<longrightarrow> item_id x \<noteq> Some (JStr k)) \<longrightarrow>
      getFromStore (run_ops item_id (onupgradeneeded Map.empty) ops) storeName (JStr k) = Inr None)"
proof (intro conjI impI)
  assume h: "db storeName = Some st \<and> item_id item = Some (JStr k)"
  then have a: "db storeName = Some st" and b: "item_id item = Some (JStr k)"
    by simp_all
  show "\<exists>db'. putInStore item_id db storeName item = Inr db' \<and>
             getFromStore db' storeName (JStr k) = Inr (Some item)"
    using a b by (rule put_then_get)
  show "\<exists>db'. deleteFromStore db storeName (JStr k) = Inr db' \<and>
             getFromStore db' storeName (JStr k) = Inr None"
    using a by (rule delete_then_get)
next
  assume h: "storeName \<in> set STORES \<and>
      (\<forall>x. Put storeName x \<in> set ops \<longrightarrow> item_id x \<noteq> Some (JStr k))"
  then have "storeName \<in> set STORES" by simp
  then have "onupgradeneeded (Map.empty :: 'a database) storeName = Some Map.empty"
    by (rule onupgradeneeded_stores)
  from run_ops_absent[of "onupgradeneeded Map.empty" storeName Map.empty "JStr k" ops item_id] this h
  obtain st' where "run_ops item_id (onupgradeneeded Map.empty) ops storeName = Some st'"
    and "st' (JStr k) = None" by auto
  then show "getFromStore (run_ops item_id (onupgradeneeded Map.empty) ops) storeName (JStr k) = Inr None"
    by (simp add: getFromStore_def)
qed

theorem store_put_get_delete_witness:
  "(\<exists>db'. putInStore (\<lambda>p. Some (JStr (fst p))) (onupgradeneeded Map.empty) ''themes''
            (''dark'', 7 :: nat) = Inr db' \<and>
          getFromStore db' ''themes'' (JStr ''dark'') = Inr (Some (''dark'', 7))) \<and>
   (\<exists>db'. deleteFromStore (onupgradeneeded Map.empty :: (string \<times> nat) database) ''themes''
            (JStr ''dark'') = Inr db' \<and>
          getFromStore db' ''themes'' (JStr ''dark'') = Inr None) \<and>
   getFromStore
     (run_ops (\<lambda>p. Some (JStr (fst p))) (onupgradeneeded Map.empty)
        [Put ''themes'' (''light'', 1 :: nat), Delete ''themes'' (JStr ''light'')])
     ''themes'' (JStr ''dark'') = Inr None"
  using store_put_get_delete
    [where db = "onupgradeneeded Map.empty" and storeName = "''themes''" and st = Map.empty
       and item_id = "\<lambda>p. Some (JStr (fst p))" and item = "(''dark'', 7 :: nat)"
       and k = "''dark''"
       and ops = "[Put ''themes'' (''light'', 1 :: nat), Delete ''themes'' (JStr ''light'')]"]
  by (simp add: onupgradeneeded_stores STORES_def)

section \<open>Deleting a session\<close>

lemma findIndex_bounds: "- 1 \<le> findIndex P xs \<and> findIndex P xs < int (length xs)"
  by (induction xs) (auto simp: Let_def)

lemma findIndex_first:
  "\<forall>x \<in> set pre. \<not> P x \<Longrightarrow> P s \<Longrightarrow> findIndex P (pre @ s # post) = int (length pre)"
  by (induction pre) (auto simp: Let_def)

lemma findIndex_absent: "\<forall>x \<in> set xs. \<not> P x \<Longrightarrow> findIndex P xs = - 1"
  by (induction xs) (auto simp: Let_def)

lemma deletion_updated:
  "updatedSessions (calculateNextStateAfterDeletion cur d act) = filter (\<lambda>s. s_id s \<noteq> d) cur"
  by (simp add: calculateNextStateAfterDeletion_def Let_def)

lemma deletion_none_iff:
  "newActiveSessionId (calculateNextStateAfterDeletion cur d act) = None
     \<longleftrightarrow> updatedSessions (calculateNextStateAfterDeletion cur d act) = []"
  by (auto simp add: calculateNextStateAfterDeletion_def Let_def)

lemma deletion_active_member:
  assumes ne: "updatedSessions (calculateNextStateAfterDeletion cur d act) \<noteq> []"
  shows "\<exists>s \<in> set (updatedSessions (calculateNextStateAfterDeletion cur d act)).
     newActiveSessionId (calculateNextStateAfterDeletion cur d act) = Some (s_id s)"
proof -
  define U where "U = filter (\<lambda>s. s_id s \<noteq> d) cur"
  define i where "i = findIndex (\<lambda>s. s_id s = d) cur"
  have U: "U \<noteq> []"
    using ne by (simp add: calculateNextStateAfterDeletion_def Let_def U_def)
  then have l: "0 < length U" by simp
  have m0: "U ! 0 \<in> set U" and ml: "U ! (length U - 1) \<in> set U"
    using l by simp_all
  have mi: "0 \<le> i \<Longrightarrow> i < int (length U) \<Longrightarrow> U ! nat i \<in> set U"
    by simp
  show ?thesis
    unfolding calculateNextStateAfterDeletion_def Let_def U_def[symmetric] i_def[symmetric]
    using U m0 ml mi by (auto simp: list_ex_iff)
qed

text \<open>
  The active session itself is deleted: with the deleted session first found at index
  \<open>length pre\<close>, the new active session is the one the updated list holds at that
  index, and the last one of the updated list when that index is past its end.
\<close>

lemma deletion_of_active:
  assumes cur: "cur = pre @ s # post" and s: "s_id s = d"
    and pre: "\<forall>x \<in> set pre. s_id x \<noteq> d"
    and ne: "updatedSessions (calculateNextStateAfterDeletion cur d (Some d)) \<noteq> []"
  shows "newActiveSessionId (calculateNextStateAfterDeletion cur d (Some d)) =
     Some (s_id (if length pre < length (updatedSessions (calculateNextStateAfterDeletion cur d (Some d)))
                 then updatedSessions (calculateNextStateAfterDeletion cur d (Some d)) ! length pre
                 else last (updatedSessions (calculateNextStateAfterDeletion cur d (Some d)))))"
proof -
  define U where "U = filter (\<lambda>s. s_id s \<noteq> d) cur"
  have i: "findIndex (\<lambda>s. s_id s = d) cur = int (length pre)"
    unfolding cur using pre s by (intro findIndex_first) auto
  have U: "U \<noteq> []"
    using ne by (simp add: calculateNextStateAfterDeletion_def Let_def U_def)
  then have "last U = U ! (length U - 1)"
    by (rule last_conv_nth)
  then show ?thesis
    unfolding calculateNextStateAfterDeletion_def Let_def U_def[symmetric] i
    using U by simp
qed

text \<open>
  Claim C2. For every list of sessions, every id to delete and every active id,
  \<^verbatim>\<open>calculateNextStateAfterDeletion\<close> returns the input list without the sessions of
  the deleted id, in the original order; the new active id is \<open>None\<close> exactly when
  that list is empty, and is otherwise the id of a session of that list. When the
  active session itself is deleted and is first found at index \<open>length pre\<close>, the
  session the updated list holds at that index is selected, or its last session when the
  index is past the end: the last session when the deleted one was last, and the session
  that followed the deleted one when no later session shares its id.
\<close>

theorem calculateNextStateAfterDeletion_spec:
  fixes cur d act
  defines "r \<equiv> calculateNextStateAfterDeletion cur d act"
  shows "updatedSessions r = filter (\<lambda>s. s_id s \<noteq> d) cur \<and>
    (newActiveSessionId r = None \<longleftrightarrow> updatedSessions r = []) \<and>
    (updatedSessions r \<noteq> [] \<longrightarrow>
       (\<exists>s \<in> set (updatedSessions r). newActiveSessionId r = Some (s_id s))) \<and>
    (\<forall>pre s post.
       cur = pre @ s # post \<and> s_id s = d \<and> (\<forall>x \<in> set pre. s_id x \<noteq> d) \<and>
       act = Some d \<and> updatedSessions r \<noteq> [] \<longrightarrow>
         newActiveSessionId r =
           Some (s_id (if length pre < length (updatedSessions r)
                       then updatedSessions r ! length pre else last (updatedSessions r))) \<and>
         (post = [] \<longrightarrow> newActiveSessionId r = Some (s_id (last (updatedSessions r)))) \<and>
         (post \<noteq> [] \<and> (\<forall>x \<in> set post. s_id x \<noteq> d) \<longrightarrow>
            newActiveSessionId r = Some (s_id (hd post))))"
proof (intro conjI allI impI)
  show "updatedSessions r = filter (\<lambda>s. s_id s \<noteq> d) cur"
    unfolding r_def by (rule deletion_updated)
  show "(newActiveSessionId r = None) = (updatedSessions r = [])"
    unfolding r_def by (rule deletion_none_iff)
  show "\<exists>s \<in> set (updatedSessions r). newActiveSessionId r = Some (s_id s)"
    if "updatedSessions r \<noteq> []"
    using that unfolding r_def by (rule deletion_active_member)
next
  fix pre s post
  assume h: "cur = pre @ s # post \<and> s_id s = d \<and> (\<forall>x \<in> set pre. s_id x \<noteq> d) \<and>
       act = Some d \<and> updatedSessions r \<noteq> []"
  then have U: "updatedSessions r = pre @ filter (\<lambda>s. s_id s \<noteq> d) post"
    by (simp add: r_def deletion_updated)
  have new: "newActiveSessionId r =
           Some (s_id (if length pre < length (updatedSessions r)
                       then updatedSessions r ! length pre else last (updatedSessions r)))"
  proof -
    from h have a: "act = Some d" and c: "cur = pre @ s # post" and sd: "s_id s = d"
      and pr: "\<forall>x \<in> set pre. s_id x \<noteq> d" by blast+
    from h have ne: "updatedSessions (calculateNextStateAfterDeletion cur d (Some d)) \<noteq> []"
      unfolding r_def by blast
    show ?thesis unfolding r_def a
      by (rule deletion_of_active[OF c sd pr ne])
  qed
  then show "newActiveSessionId r =
           Some (s_id (if length pre < length (updatedSessions r)
                       then updatedSessions r ! length pre else last (updatedSessions r)))" .
  show "newActiveSessionId r = Some (s_id (last (updatedSessions r)))" if "post = []"
    using new U that by simp
  show "newActiveSessionId r = Some (s_id (hd post))"
    if "post \<noteq> [] \<and> (\<forall>x \<in> set post. s_id x \<noteq> d)"
  proof -
    have "filter (\<lambda>s. s_id s \<noteq> d) post = post" using that by simp
    then show ?thesis using new U that by (simp add: nth_append hd_conv_nth)
  qed
qed

theorem calculateNextStateAfterDeletion_spec_witness:
  "updatedSessions (calculateNextStateAfterDeletion
       [session_with_id ''a'', session_with_id ''b'', session_with_id ''c''] ''b'' (Some ''b''))
     = [session_with_id ''a'', session_with_id ''c''] \<and>
   newActiveSessionId (calculateNextStateAfterDeletion
       [session_with_id ''a'', session_with_id ''b'', session_with_id ''c''] ''b'' (Some ''b''))
     = Some ''c'' \<and>
   newActiveSessionId (calculateNextStateAfterDeletion
       [session_with_id ''a'', session_with_id ''b''] ''b'' (Some ''b'')) = Some ''a'' \<and>
   newActiveSessionId (calculateNextStateAfterDeletion
       [session_with_id ''b''] ''b'' (Some ''b'')) = None"
  using calculateNextStateAfterDeletion_spec
     [of "[session_with_id ''a'', session_with_id ''b'', session_with_id ''c'']" "''b''" "Some ''b''"]
    calculateNextStateAfterDeletion_spec
     [of "[session_with_id ''a'', session_with_id ''b'']" "''b''" "Some ''b''"]
    calculateNextStateAfterDeletion_spec
     [of "[session_with_id ''b'']" "''b''" "Some ''b''"]
  by (simp add: session_with_id_def calculateNextStateAfterDeletion_def)

section \<open>Senders of messages\<close>

text \<open>
  Claim C4, as stated: every message has sender \<^verbatim>\<open>'user'\<close> or \<^verbatim>\<open>'assistant'\<close>. The
  welcome message of a new session has neither.
\<close>

theorem message_sender_counterexample:
  "\<not> (\<forall>m \<in> set (s_messages (createNewChatSession 0)).
         m_sender m = ''user'' \<or> m_sender m = ''assistant'')"
  by (simp add: createNewChatSession_def)

text \<open>
  Claim C4, amended: the welcome message that \<^verbatim>\<open>createNewChatSession\<close> places in every
  new session has sender \<^verbatim>\<open>'bot'\<close>, and the message built for the user's input has
  sender \<^verbatim>\<open>'user'\<close>: the two values of the \<^verbatim>\<open>Message\<close> type of \<^verbatim>\<open>types.js\<close>.
\<close>

theorem message_sender_user_or_bot:
  "map m_sender (s_messages (createNewChatSession timestamp)) = [''bot''] \<and>
   m_sender (userMessage now messageText) = ''user''"
  by (simp add: createNewChatSession_def userMessage_def)

text \<open>The replies built in \<^verbatim>\<open>ChatArea.jsx\<close> carry a third tag.\<close>

lemma reply_sender: "m_sender (aiMessage now response) = ''ai'' \<and> m_sender (errorMessage now e) = ''ai''"
  by (simp add: aiMessage_def errorMessage_def)

section \<open>Reading and writing the statistics\<close>

lemma getUserStats_store:
  "db USER_STATS = Some st \<Longrightarrow> getUserStats db = Inr (st (JStr ''main''))"
  by (simp add: getUserStats_def getFromStore_def)

lemma saveUserStats_main:
  assumes "db USER_STATS = Some st" and "stats ''id'' = None \<or> stats ''id'' = Some (JStr ''main'')"
  shows "saveUserStats db stats =
    Inr (db(USER_STATS \<mapsto> st(JStr ''main'' \<mapsto> stats(''id'' \<mapsto> JStr ''main''))))"
proof -
  have 1: "([''id'' \<mapsto> JStr ''main''] ++ stats) ''id'' = Some (JStr ''main'')"
    using assms(2) by (auto simp: map_add_def)
  have 2: "[''id'' \<mapsto> JStr ''main''] ++ stats = stats(''id'' \<mapsto> JStr ''main'')"
    using assms(2) by (auto simp: map_add_def fun_eq_iff split: option.splits)
  show ?thesis
    unfolding saveUserStats_def putInStore_def using assms(1) 1 by (simp add: 2)
qed

text \<open>Records stay keyed by their \<^verbatim>\<open>id\<close> when \<^verbatim>\<open>putInStore\<close> and
  \<^verbatim>\<open>deleteFromStore\<close> write to a store.\<close>

lemma keyed_by_id_empty: "keyed_by_id Map.empty"
  by (simp add: keyed_by_id_def)

lemma putInStore_keyed:
  assumes "putInStore (\<lambda>obj. obj ''id'') db storeName item = Inr db'"
    and "db name = Some st" and "keyed_by_id st" and "db' name = Some st'"
  shows "keyed_by_id st'"
  using assms
  by (auto simp: putInStore_def keyed_by_id_def split: option.splits if_splits)

lemma deleteFromStore_keyed:
  assumes "deleteFromStore db storeName ident = Inr db'"
    and "db name = Some st" and "keyed_by_id st" and "db' name = Some st'"
  shows "keyed_by_id st'"
  using assms
  by (auto simp: deleteFromStore_def keyed_by_id_def split: option.splits if_splits)

lemma initial_stats_no_id: "initial_stats now ''id'' = None"
  by (simp add: initial_stats_def)

lemma currentStats_existing:
  "db USER_STATS = Some st \<Longrightarrow> st (JStr ''main'') = Some s \<Longrightarrow> currentStats now db = Inr (s, db)"
  by (simp add: currentStats_def getUserStats_store await_def)

lemma currentStats_fresh:
  assumes "db USER_STATS = Some st" and "st (JStr ''main'') = None"
  shows "currentStats now db =
    Inr (initial_stats now,
         db(USER_STATS \<mapsto> st(JStr ''main'' \<mapsto> (initial_stats now)(''id'' \<mapsto> JStr ''main''))))"
  using assms
  by (simp add: currentStats_def initializeUserStats_def getUserStats_store await_def
      saveUserStats_main initial_stats_no_id)

lemma currentStats_stored:
  assumes store: "db USER_STATS = Some st" and keyed: "keyed_by_id st"
  shows "\<exists>cur db1 st1. currentStats now db = Inr (cur, db1) \<and>
           db1 USER_STATS = Some st1 \<and> st1 (JStr ''main'') = Some (stored_stats now st) \<and>
           cur(''id'' \<mapsto> JStr ''main'') = stored_stats now st \<and>
           (cur ''id'' = None \<or> cur ''id'' = Some (JStr ''main'')) \<and>
           (st (JStr ''main'') \<noteq> None \<longrightarrow> db1 = db) \<and> keyed_by_id st1"
proof (cases "st (JStr ''main'')")
  case None
  have "[''id'' \<mapsto> JStr ''main''] ++ initial_stats now = (initial_stats now)(''id'' \<mapsto> JStr ''main'')"
    by (auto simp: map_add_def fun_eq_iff initial_stats_no_id split: option.splits)
  moreover have "keyed_by_id (st(JStr ''main'' \<mapsto> (initial_stats now)(''id'' \<mapsto> JStr ''main'')))"
    using keyed by (simp add: keyed_by_id_def)
  ultimately show ?thesis
    using None currentStats_fresh[where db=db and st=st and now=now, OF store None]
    by (simp add: stored_stats_def initial_stats_no_id)
next
  case (Some s)
  then have id: "s ''id'' = Some (JStr ''main'')"
    using keyed by (simp add: keyed_by_id_def)
  then have "s(''id'' \<mapsto> JStr ''main'') = s" by (auto simp: fun_eq_iff)
  then show ?thesis
    using Some currentStats_existing[where db=db and st=st and now=now and s=s, OF store Some] store id keyed
    by (simp add: stored_stats_def)
qed

lemma not_inherited:
  "statName \<notin> set Object_prototype \<Longrightarrow>
   inherited_string statName = None \<and> statName \<noteq> ''__proto__''"
  by (auto simp: inherited_string_def Object_prototype_def)

lemma incremented_own:
  "inherited_string statName = None \<Longrightarrow>
   incremented current statName amount =
     js_add (js_or (current statName) (JNum 0)) (JNum amount)"
  by (simp add: incremented_def js_or_def split: option.splits)

lemma round_to_double_safe: "\<bar>r\<bar> < 2 ^ 53 \<Longrightarrow> round_to_double r = JNum r"
  by (simp add: round_to_double_def)

lemma js_add_safe: "\<bar>a + b\<bar> < 2 ^ 53 \<Longrightarrow> js_add (JNum a) (JNum b) = JNum (a + b)"
  by (simp add: js_add_def round_to_double_safe)

lemma incrementStat_stored:
  assumes store: "db USER_STATS = Some st" and keyed: "keyed_by_id st"
    and name: "statName \<noteq> ''id''" and own: "statName \<notin> set Object_prototype"
  shows "\<exists>returned db'. incrementStat now db statName amount = Inr (returned, db') \<and>
           getUserStats db' =
             Inr (Some ((stored_stats now st)
               (statName \<mapsto> js_add (js_or (stored_stats now st statName) (JNum 0)) (JNum amount))))"
proof -
  from currentStats_stored[where db=db and st=st and now=now, OF store keyed]
  obtain cur db1 st1 where c: "currentStats now db = Inr (cur, db1)"
    and s1: "db1 USER_STATS = Some st1"
    and eq: "cur(''id'' \<mapsto> JStr ''main'') = stored_stats now st"
    and cid: "cur ''id'' = None \<or> cur ''id'' = Some (JStr ''main'')"
    by blast
  define v where "v = js_add (js_or (cur statName) (JNum 0)) (JNum amount)"
  have inc: "incremented cur statName amount = v" and np: "statName \<noteq> ''__proto__''"
    using not_inherited[OF own] by (simp_all add: incremented_own v_def)
  have same: "cur statName = stored_stats now st statName"
    using name by (simp add: eq[symmetric])
  have id': "(cur(statName \<mapsto> v)) ''id'' = None \<or> (cur(statName \<mapsto> v)) ''id'' = Some (JStr ''main'')"
    using cid name by simp
  have sw: "(cur(statName \<mapsto> v))(''id'' \<mapsto> JStr ''main'') = (stored_stats now st)(statName \<mapsto> v)"
    using name by (simp add: eq[symmetric] fun_upd_twist)
  show ?thesis
    unfolding incrementStat_def c await_def
    by (simp add: Let_def inc np saveUserStats_main[where db=db1 and st=st1 and stats="cur(statName \<mapsto> v)", OF s1 id'] getUserStats_store sw)
      (simp add: v_def same)
qed

lemma updateUserStats_stored:
  assumes store: "db USER_STATS = Some st" and keyed: "keyed_by_id st"
    and upd: "updates ''id'' = None"
  shows "\<exists>returned db'. updateUserStats now db updates = Inr (returned, db') \<and>
           getUserStats db' = Inr (Some (stored_stats now st ++ updates)) \<and>
           returned(''id'' \<mapsto> JStr ''main'') = stored_stats now st ++ updates"
proof -
  from currentStats_stored[where db=db and st=st and now=now, OF store keyed]
  obtain cur db1 st1 where c: "currentStats now db = Inr (cur, db1)"
    and s1: "db1 USER_STATS = Some st1"
    and eq: "cur(''id'' \<mapsto> JStr ''main'') = stored_stats now st"
    and cid: "cur ''id'' = None \<or> cur ''id'' = Some (JStr ''main'')"
    by blast
  have id': "(cur ++ updates) ''id'' = None \<or> (cur ++ updates) ''id'' = Some (JStr ''main'')"
    using cid upd by (simp add: map_add_def)
  have sw: "(cur ++ updates)(''id'' \<mapsto> JStr ''main'') = stored_stats now st ++ updates"
    using upd by (auto simp: eq[symmetric] map_add_def fun_eq_iff split: option.splits)
  show ?thesis
    unfolding updateUserStats_def c await_def
    by (simp add: Let_def
        saveUserStats_main[where db=db1 and st=st1 and stats="cur ++ updates", OF s1 id']
        getUserStats_store sw)
qed

text \<open>
  Claim C7, as stated: for every stat name, \<^verbatim>\<open>incrementStat\<close> sets the named field
  of the stored statistics to its previous value plus the amount. The spread in
  \<^verbatim>\<open>saveUserStats\<close> writes \<^verbatim>\<open>id: 'main'\<close> first, so under the name \<^verbatim>\<open>'id'\<close>
  the call stores a second record with the key \<^verbatim>\<open>'main1'\<close>, and the statistics under
  \<^verbatim>\<open>'main'\<close> stay as they were.
\<close>

theorem incrementStat_id_counterexample:
  "\<exists>returned db' store' second.
     incrementStat 1000
       [USER_STATS \<mapsto> [JStr ''main'' \<mapsto> [''id'' \<mapsto> JStr ''main'', ''totalChats'' \<mapsto> JNum 3]]]
       ''id'' 1 = Inr (returned, db') \<and>
     js_add (js_or (Some (JStr ''main'')) (JNum 0)) (JNum 1) = JStr ''main1'' \<and>
     returned ''id'' = Some (JStr ''main1'') \<and>
     getUserStats db' = Inr (Some [''id'' \<mapsto> JStr ''main'', ''totalChats'' \<mapsto> JNum 3]) \<and>
     db' USER_STATS = Some store' \<and>
     store' (JStr ''main1'') = Some second \<and>
     second ''id'' = Some (JStr ''main1'') \<and> second ''totalChats'' = Some (JNum 3)"
  by (simp add: incrementStat_def currentStats_def getUserStats_def getFromStore_def
      saveUserStats_def putInStore_def await_def Let_def incremented_def js_or_def js_add_def
      js_numToString_def show_nat.simps map_add_def)

text \<open>
  A name that the statistics inherit from \<^verbatim>\<open>Object.prototype\<close> reads as a function,
  and the sum is a string; and a counter at \<open>2\<^sup>5\<^sup>3\<close> stays where it is, the next
  integer not being a double.
\<close>

lemma incrementStat_inherited_name:
  "\<exists>returned db' stored.
     incrementStat 1000 [USER_STATS \<mapsto> Map.empty] ''constructor'' 1 = Inr (returned, db') \<and>
     getUserStats db' = Inr (Some stored) \<and>
     stored ''constructor'' = Some (JStr ''function Object() { [native code] }1'')"
  by (simp add: incrementStat_def currentStats_def initializeUserStats_def getUserStats_def
      getFromStore_def saveUserStats_def putInStore_def await_def Let_def incremented_def
      inherited_string_def initial_stats_def js_numToString_def show_nat.simps map_add_def)

lemma incrementStat_beyond_safe_integers:
  "\<exists>returned db' stored.
     incrementStat 1000
       [USER_STATS \<mapsto> [JStr ''main'' \<mapsto> [''id'' \<mapsto> JStr ''main'', ''totalChats'' \<mapsto> JNum (2 ^ 53)]]]
       ''totalChats'' 1 = Inr (returned, db') \<and>
     getUserStats db' = Inr (Some stored) \<and>
     stored ''totalChats'' = Some (JNum (2 ^ 53))"
  by (simp add: incrementStat_def currentStats_def getUserStats_def getFromStore_def
      saveUserStats_def putInStore_def await_def Let_def incremented_def js_or_def js_add_def
      round_to_double_def bit_length.simps map_add_def)

text \<open>
  Claim C7, amended. For every state of the statistics, every stat name other than
  \<^verbatim>\<open>'id'\<close>, the key of the record, and the names that an object inherits, and every
  amount that is an integer below \<open>2\<^sup>5\<^sup>3\<close> in absolute value, \<^verbatim>\<open>incrementStat\<close>
  resolves and leaves under \<^verbatim>\<open>'main'\<close> the statistics with the named property set to
  the sum, by \<^verbatim>\<open>+\<close>, of its previous value, or 0 when it was absent, and the amount,
  and with every other property as it was. The sum of a number and the amount is their
  sum as integers when that is below \<open>2\<^sup>5\<^sup>3\<close> in absolute value.
\<close>

theorem incrementStat_frame:
  assumes store: "db USER_STATS = Some st" and keyed: "keyed_by_id st"
    and name: "statName \<noteq> ''id''" and own: "statName \<notin> set Object_prototype"
    and amount: "\<bar>amount\<bar> < 2 ^ 53"
  shows "\<exists>returned db' stored.
           incrementStat now db statName amount = Inr (returned, db') \<and>
           getUserStats db' = Inr (Some stored) \<and>
           stored statName =
             Some (js_add (js_or (stored_stats now st statName) (JNum 0)) (JNum amount)) \<and>
           (\<forall>n. stored_stats now st statName = Some (JNum n) \<and> \<bar>n + amount\<bar> < 2 ^ 53 \<longrightarrow>
                stored statName = Some (JNum (n + amount))) \<and>
           (stored_stats now st statName = None \<longrightarrow> stored statName = Some (JNum amount)) \<and>
           (\<forall>field. field \<noteq> statName \<longrightarrow> stored field = stored_stats now st field)"
proof -
  from incrementStat_stored[where db=db and st=st and statName=statName and now=now
      and amount=amount, OF store keyed name own]
  obtain returned db' where
    r: "incrementStat now db statName amount = Inr (returned, db')" and
    g: "getUserStats db' =
             Inr (Some ((stored_stats now st)
               (statName \<mapsto> js_add (js_or (stored_stats now st statName) (JNum 0)) (JNum amount))))"
    by blast
  have zero: "js_add (JNum 0) (JNum amount) = JNum amount"
    using js_add_safe[of 0 amount] amount by simp
  show ?thesis
    apply (rule exI[of _ returned], rule exI[of _ db'])
    apply (rule exI[of _ "(stored_stats now st)
               (statName \<mapsto> js_add (js_or (stored_stats now st statName) (JNum 0)) (JNum amount))"])
    using r g zero by (auto simp: js_or_def js_add_safe)
qed

theorem incrementStat_frame_witness:
  "\<exists>returned db' stored.
     incrementStat 1000 (onupgradeneeded Map.empty) ''totalChats'' 1 = Inr (returned, db') \<and>
     getUserStats db' = Inr (Some stored) \<and>
     stored ''totalChats'' = Some (JNum 1) \<and>
     stored ''totalMessages'' = Some (JNum 0) \<and>
     stored ''achievements'' = Some (JArr []) \<and>
     stored ''joinDate'' = Some (JNum 1000)"
proof -
  have s: "(onupgradeneeded Map.empty :: jsobj database) USER_STATS = Some Map.empty"
    by (rule onupgradeneeded_stores) (simp add: USER_STATS_def STORES_def)
  have k: "keyed_by_id Map.empty" by (simp add: keyed_by_id_def)
  have n: "''totalChats'' \<noteq> ''id''" by simp
  have o: "''totalChats'' \<notin> set Object_prototype" by (simp add: Object_prototype_def)
  have a: "\<bar>1 :: int\<bar> < 2 ^ 53" by simp
  from incrementStat_frame[where db="onupgradeneeded Map.empty" and st=Map.empty
      and statName="''totalChats''" and now=1000 and amount=1, OF s k n o a]
  obtain returned db' stored where
    "incrementStat 1000 (onupgradeneeded Map.empty) ''totalChats'' 1 = Inr (returned, db')"
    "getUserStats db' = Inr (Some stored)"
    "\<forall>n. stored_stats 1000 Map.empty ''totalChats'' = Some (JNum n) \<and> \<bar>n + 1\<bar> < 2 ^ 53 \<longrightarrow>
                stored ''totalChats'' = Some (JNum (n + 1))"
    "\<forall>field. field \<noteq> ''totalChats'' \<longrightarrow> stored field = stored_stats 1000 Map.empty field"
    by blast
  then show ?thesis
    by (intro exI[of _ returned] exI[of _ db'] exI[of _ stored])
      (simp add: stored_stats_def initial_stats_def map_add_def)
qed

section \<open>The streak of active days\<close>

lemma stored_stats_same:
  "st1 (JStr ''main'') = Some (stored_stats now st) \<Longrightarrow> stored_stats now st1 = stored_stats now st"
  by (simp add: stored_stats_def)

lemma updateStreakDays_cases:
  assumes store: "db USER_STATS = Some st" and keyed: "keyed_by_id st"
  shows "\<exists>returned db'. updateStreakDays dateString now db = Inr (returned, db') \<and>
           returned(''id'' \<mapsto> JStr ''main'') = 
             (if dateString (stored_stats now st ''lastActiveDate'') = dateString (Some (JNum now))
              then stored_stats now st
              else (stored_stats now st)
                (''streakDays'' \<mapsto>
                    (if dateString (stored_stats now st ''lastActiveDate'') =
                        dateString (Some (JNum (now - 24 * 60 * 60 * 1000)))
                     then js_add (js_or (stored_stats now st ''streakDays'') (JNum 0)) (JNum 1)
                     else JNum 1),
                 ''lastActiveDate'' \<mapsto> JNum now)) \<and>
           getUserStats db' = Inr (Some (returned(''id'' \<mapsto> JStr ''main''))) \<and>
           (dateString (stored_stats now st ''lastActiveDate'') = dateString (Some (JNum now)) \<and>
            st (JStr ''main'') \<noteq> None \<longrightarrow> db' = db)"
proof -
  from currentStats_stored[where db=db and st=st and now=now, OF store keyed]
  obtain cur db1 st1 where c: "currentStats now db = Inr (cur, db1)"
    and s1: "db1 USER_STATS = Some st1"
    and m1: "st1 (JStr ''main'') = Some (stored_stats now st)"
    and eq: "cur(''id'' \<mapsto> JStr ''main'') = stored_stats now st"
    and same: "st (JStr ''main'') \<noteq> None \<longrightarrow> db1 = db"
    and k1: "keyed_by_id st1"
    by blast
  have la: "cur ''lastActiveDate'' = stored_stats now st ''lastActiveDate''"
    and sd: "cur ''streakDays'' = stored_stats now st ''streakDays''"
    by (simp_all add: eq[symmetric])
  define updates :: jsobj where "updates =
     [''streakDays'' \<mapsto>
        (if dateString (stored_stats now st ''lastActiveDate'') =
            dateString (Some (JNum (now - 24 * 60 * 60 * 1000)))
         then js_add (js_or (stored_stats now st ''streakDays'') (JNum 0)) (JNum 1)
         else JNum 1),
      ''lastActiveDate'' \<mapsto> JNum now]"
  have u: "updates ''id'' = None" by (simp add: updates_def)
  from updateUserStats_stored[where db=db1 and st=st1 and now=now and updates=updates,
      OF s1 k1 u]
  obtain returned db' where r: "updateUserStats now db1 updates = Inr (returned, db')"
    and g: "getUserStats db' = Inr (Some (stored_stats now st ++ updates))"
    and e: "returned(''id'' \<mapsto> JStr ''main'') = stored_stats now st ++ updates"
    unfolding stored_stats_same[where ?st1.0=st1 and now=now and st=st, OF m1] by blast
  have add: "stored_stats now st ++ updates = (stored_stats now st)
                (''streakDays'' \<mapsto>
                    (if dateString (stored_stats now st ''lastActiveDate'') =
                        dateString (Some (JNum (now - 24 * 60 * 60 * 1000)))
                     then js_add (js_or (stored_stats now st ''streakDays'') (JNum 0)) (JNum 1)
                     else JNum 1),
                 ''lastActiveDate'' \<mapsto> JNum now)"
    by (simp add: updates_def)
  show ?thesis
  proof (cases "dateString (stored_stats now st ''lastActiveDate'') = dateString (Some (JNum now))")
    case True
    then show ?thesis
      unfolding updateStreakDays_def c await_def
      using eq same s1 m1 by (simp add: Let_def la getUserStats_store)
  next
    case False
    have step: "updateStreakDays dateString now db = updateUserStats now db1 updates"
      unfolding updateStreakDays_def c await_def updates_def
      using False by (simp add: Let_def la sd)
    show ?thesis
    proof (intro exI conjI)
      show "updateStreakDays dateString now db = Inr (returned, db')"
        using step r by simp
      show "returned(''id'' \<mapsto> JStr ''main'') = 
             (if dateString (stored_stats now st ''lastActiveDate'') = dateString (Some (JNum now))
              then stored_stats now st
              else (stored_stats now st)
                (''streakDays'' \<mapsto>
                    (if dateString (stored_stats now st ''lastActiveDate'') =
                        dateString (Some (JNum (now - 24 * 60 * 60 * 1000)))
                     then js_add (js_or (stored_stats now st ''streakDays'') (JNum 0)) (JNum 1)
                     else JNum 1),
                 ''lastActiveDate'' \<mapsto> JNum now))"
        by (simp only: False if_False e add)
      show "getUserStats db' = Inr (Some (returned(''id'' \<mapsto> JStr ''main'')))"
        by (simp only: g e)
      show "dateString (stored_stats now st ''lastActiveDate'') = dateString (Some (JNum now)) \<and>
            st (JStr ''main'') \<noteq> None \<longrightarrow> db' = db"
        using False by simp
    qed
  qed
qed

text \<open>The days of the instants used below, in the calendar \<open>local_day\<close>.\<close>

lemma local_days:
  "local_dateString (Some (JNum 43200000)) = ''0''"
  "local_dateString (Some (JNum 174600000)) = ''1''"
  "local_dateString (Some (JNum 88200000)) = ''1''"
  "local_dateString (Some (JNum 216000000)) = ''2''"
  "local_dateString (Some (JNum 129600000)) = ''1''"
  "local_dateString (Some (JNum 108000000)) = ''1''"
  by (simp_all add: local_dateString_def local_day_def js_numToString_def show_nat.simps)

text \<open>
  Claim C8 says that the streak grows by one when \<^verbatim>\<open>lastActiveDate\<close> falls on the
  previous day. The source takes for yesterday the day of the instant 24 hours before
  \<open>now\<close>, and on a day of 25 hours that instant can lie on the day of \<open>now\<close>
  itself. In the calendar \<open>local_day\<close>, with the statistics last active at noon of
  day 0 and a streak of 5, a call half an hour before the end of day 1 resets the
  streak to 1.
\<close>

theorem updateStreakDays_long_day:
  "local_day 43200000 = 0 \<and> local_day 174600000 = 1 \<and>
   local_day (174600000 - 24 * 60 * 60 * 1000) = 1 \<and>
   (\<exists>returned db' stored.
      updateStreakDays local_dateString 174600000
        [USER_STATS \<mapsto> [JStr ''main'' \<mapsto>
           [''id'' \<mapsto> JStr ''main'', ''streakDays'' \<mapsto> JNum 5,
            ''lastActiveDate'' \<mapsto> JNum 43200000]]] = Inr (returned, db') \<and>
      getUserStats db' = Inr (Some stored) \<and>
      stored ''streakDays'' = Some (JNum 1) \<and>
      stored ''lastActiveDate'' = Some (JNum 174600000))"
proof -
  define st :: "jsobj object_store" where "st = [JStr ''main'' \<mapsto>
          [''id'' \<mapsto> JStr ''main'', ''streakDays'' \<mapsto> JNum 5,
           ''lastActiveDate'' \<mapsto> JNum 43200000]]"
  have s: "[USER_STATS \<mapsto> st] USER_STATS = Some st" by simp
  have k: "keyed_by_id st" by (simp add: keyed_by_id_def st_def)
  have old: "stored_stats 174600000 st = [''id'' \<mapsto> JStr ''main'', ''streakDays'' \<mapsto> JNum 5,
           ''lastActiveDate'' \<mapsto> JNum 43200000]"
    by (simp add: stored_stats_def st_def)
  from updateStreakDays_cases[where db="[USER_STATS \<mapsto> st]" and st=st
      and dateString=local_dateString and now=174600000, OF s k]
  obtain returned db' where
    "updateStreakDays local_dateString 174600000 [USER_STATS \<mapsto> st] = Inr (returned, db')"
    "getUserStats db' = Inr (Some (returned(''id'' \<mapsto> JStr ''main'')))"
    "returned(''id'' \<mapsto> JStr ''main'') = (stored_stats 174600000 st)
          (''streakDays'' \<mapsto> JNum 1, ''lastActiveDate'' \<mapsto> JNum 174600000)"
    unfolding old by (auto simp: local_days)
  then have "\<exists>returned db' stored.
      updateStreakDays local_dateString 174600000 [USER_STATS \<mapsto> st] = Inr (returned, db') \<and>
      getUserStats db' = Inr (Some stored) \<and>
      stored ''streakDays'' = Some (JNum 1) \<and>
      stored ''lastActiveDate'' = Some (JNum 174600000)"
    by (intro exI[of _ returned] exI[of _ db'] exI[of _ "returned(''id'' \<mapsto> JStr ''main'')"])
      (simp add: old)
  then show ?thesis
    unfolding st_def by (simp add: local_day_def)
qed

text \<open>
  On the days of 24 hours the same statistics are treated as the claim says: a call on
  day 2 after activity on day 1 raises the streak to 6, and a call on the day of the
  last activity changes nothing.
\<close>

lemma updateStreakDays_ordinary_day:
  "local_day 108000000 = 1 \<and> local_day 216000000 = 2 \<and>
   (\<exists>returned db' stored.
      updateStreakDays local_dateString 216000000
        [USER_STATS \<mapsto> [JStr ''main'' \<mapsto>
           [''id'' \<mapsto> JStr ''main'', ''streakDays'' \<mapsto> JNum 5,
            ''lastActiveDate'' \<mapsto> JNum 108000000]]] = Inr (returned, db') \<and>
      getUserStats db' = Inr (Some stored) \<and>
      stored ''streakDays'' = Some (JNum 6) \<and>
      stored ''lastActiveDate'' = Some (JNum 216000000))"
proof -
  define st :: "jsobj object_store" where "st = [JStr ''main'' \<mapsto>
          [''id'' \<mapsto> JStr ''main'', ''streakDays'' \<mapsto> JNum 5,
           ''lastActiveDate'' \<mapsto> JNum 108000000]]"
  have s: "[USER_STATS \<mapsto> st] USER_STATS = Some st" by simp
  have k: "keyed_by_id st" by (simp add: keyed_by_id_def st_def)
  have old: "stored_stats 216000000 st = [''id'' \<mapsto> JStr ''main'', ''streakDays'' \<mapsto> JNum 5,
           ''lastActiveDate'' \<mapsto> JNum 108000000]"
    by (simp add: stored_stats_def st_def)
  from updateStreakDays_cases[where db="[USER_STATS \<mapsto> st]" and st=st
      and dateString=local_dateString and now=216000000, OF s k]
  obtain returned db' where
    "updateStreakDays local_dateString 216000000 [USER_STATS \<mapsto> st] = Inr (returned, db')"
    "getUserStats db' = Inr (Some (returned(''id'' \<mapsto> JStr ''main'')))"
    "returned(''id'' \<mapsto> JStr ''main'') = (stored_stats 216000000 st)
          (''streakDays'' \<mapsto> JNum 6, ''lastActiveDate'' \<mapsto> JNum 216000000)"
    unfolding old by (auto simp: local_days js_or_def js_add_safe)
  then have "\<exists>returned db' stored.
      updateStreakDays local_dateString 216000000 [USER_STATS \<mapsto> st] = Inr (returned, db') \<and>
      getUserStats db' = Inr (Some stored) \<and>
      stored ''streakDays'' = Some (JNum 6) \<and>
      stored ''lastActiveDate'' = Some (JNum 216000000)"
    by (intro exI[of _ returned] exI[of _ db'] exI[of _ "returned(''id'' \<mapsto> JStr ''main'')"])
      (simp add: old)
  then show ?thesis
    unfolding st_def by (simp add: local_day_def)
qed

section \<open>Awarding achievements\<close>

text \<open>
  The table has ten rules with distinct ids, each the test of one counter against a
  threshold.
\<close>

lemma achievements_rules:
  "length achievements = 10 \<and> distinct (map a_id achievements) \<and>
   map condition achievements = map (\<lambda>(counter, threshold) s. js_ge (s counter) threshold) thresholds"
  by (simp add: achievements_def thresholds_def)

text \<open>
  The loop returns exactly the rules whose condition holds and whose id is not in the
  list yet, and appends their ids to the list.
\<close>

lemma award_general:
  "distinct (map a_id table) \<Longrightarrow> set (map a_id table) \<inter> set (map a_id new) = {} \<Longrightarrow>
   set (map a_id new) \<subseteq> set cur \<Longrightarrow>
   award stats table (new, cur) =
     (new @ filter (\<lambda>a. a_id a \<notin> set cur \<and> condition a stats) table,
      cur @ map a_id (filter (\<lambda>a. a_id a \<notin> set cur \<and> condition a stats) table))"
proof (induction table arbitrary: new cur)
  case Nil
  then show ?case by simp
next
  case (Cons a table)
  have ne: "a_id x \<noteq> a_id a" if "x \<in> set table" for x
    using Cons.prems(1) that by (metis distinct.simps(2) image_eqI list.simps(9) set_map)
  have *: "filter (\<lambda>b. a_id b \<notin> set (cur @ [a_id a]) \<and> condition b stats) table
         = filter (\<lambda>b. a_id b \<notin> set cur \<and> condition b stats) table"
    by (rule filter_cong[OF refl]) (simp add: ne)
  show ?case
  proof (cases "a_id a \<notin> set cur \<and> condition a stats")
    case True
    have "award stats (a # table) (new, cur) = award stats table (new @ [a], cur @ [a_id a])"
      using True by simp
    also have "\<dots> = ((new @ [a]) @ filter (\<lambda>b. a_id b \<notin> set (cur @ [a_id a]) \<and> condition b stats) table,
        (cur @ [a_id a]) @ map a_id (filter (\<lambda>b. a_id b \<notin> set (cur @ [a_id a]) \<and> condition b stats) table))"
      using Cons.prems by (intro Cons.IH) auto
    finally show ?thesis using True * by simp
  next
    case False
    have "award stats (a # table) (new, cur) = award stats table (new, cur)"
      using False by auto
    also have "\<dots> = (new @ filter (\<lambda>b. a_id b \<notin> set cur \<and> condition b stats) table,
        cur @ map a_id (filter (\<lambda>b. a_id b \<notin> set cur \<and> condition b stats) table))"
      using Cons.prems by (intro Cons.IH) auto
    finally show ?thesis using False by auto
  qed
qed

lemma award_achievements:
  "award stats achievements ([], cur) =
     (filter (\<lambda>a. a_id a \<notin> set cur \<and> condition a stats) achievements,
      cur @ map a_id (filter (\<lambda>a. a_id a \<notin> set cur \<and> condition a stats) achievements))"
  using award_general[of achievements "[]" cur stats] achievements_rules by simp

lemma fresh_db_stats: "(onupgradeneeded Map.empty :: jsobj database) USER_STATS = Some Map.empty"
  by (rule onupgradeneeded_stores) (simp add: USER_STATS_def STORES_def)

lemmas stats_defs = updateStatsAndCheck_def incrementStat_def currentStats_def getUserStats_def
    getFromStore_def initializeUserStats_def saveUserStats_def putInStore_def
    await_def initial_stats_def Let_def js_or_def USER_STATS_def
      getUsageInsights_def checkAchievements_def persist_achievements_def achievements_def js_ge_def
      updateUserStats_def round_div_def map_add_def js_add_def round_to_double_def
      incremented_def inherited_string_def Object_prototype_def

lemma fresh_db_userStats: "(onupgradeneeded Map.empty :: jsobj database) ''userStats'' = Some Map.empty"
  using fresh_db_stats by (simp add: USER_STATS_def)

text \<open>
  The usage insights carry no list of achievements, and on such an argument every rule
  that holds is returned, whatever was earned before.
\<close>

lemma getUsageInsights_no_achievements:
  assumes "getUsageInsights now db = Inr (stats, db')"
  shows "stats ''achievements'' = None"
  using assms
  by (auto simp: getUsageInsights_def await_def Let_def split: sum.splits prod.splits)

lemma checkAchievements_without_list:
  assumes "stats ''achievements'' = None"
    and "checkAchievements now db stats = Inr (new, stats', db')"
  shows "new = filter (\<lambda>a. condition a stats) achievements \<and> stats' = stats"
  using assms
  by (auto simp: checkAchievements_def persist_achievements_def js_or_def award_achievements
      await_def Let_def split: if_splits sum.splits prod.splits)

text \<open>
  Claim C3 says that the same achievement is never returned twice across successive
  calls. \<^verbatim>\<open>App.jsx\<close> calls \<^verbatim>\<open>checkAchievements\<close> on the usage insights, which have no
  \<^verbatim>\<open>achievements\<close> property, so every call starts from the empty list: in a fresh
  database, the first and the second message each earn \<^verbatim>\<open>first_message\<close>.
\<close>

theorem checkAchievements_repeats:
  "case updateStatsAndCheck 1000 (onupgradeneeded Map.empty) ''totalMessages'' of
     Inl e \<Rightarrow> False
   | Inr (new1, db1) \<Rightarrow> map a_id new1 = [''first_message''] \<and>
      (case updateStatsAndCheck 2000 db1 ''totalMessages'' of
         Inl e \<Rightarrow> False
       | Inr (new2, db2) \<Rightarrow> map a_id new2 = [''first_message''])"
  by (simp add: stats_defs fresh_db_userStats)

text \<open>
  On statistics that carry their \<^verbatim>\<open>achievements\<close> array the call changes that array,
  and a second call on the same object returns nothing.
\<close>

lemma condition_ignores_achievements:
  "a \<in> set achievements \<Longrightarrow> condition a (stats(''achievements'' \<mapsto> v)) = condition a stats"
  by (auto simp: achievements_def)

lemma checkAchievements_array:
  assumes arr: "stats ''achievements'' = Some (JArr cur)"
    and store: "db USER_STATS = Some st" and keyed: "keyed_by_id st"
  shows "\<exists>db'. checkAchievements now db stats =
     Inr (filter (\<lambda>a. a_id a \<notin> set cur \<and> condition a stats) achievements,
          stats(''achievements'' \<mapsto>
            JArr (cur @ map a_id (filter (\<lambda>a. a_id a \<notin> set cur \<and> condition a stats) achievements))),
          db')"
proof -
  define new where "new = filter (\<lambda>a. a_id a \<notin> set cur \<and> condition a stats) achievements"
  have u: "[''achievements'' \<mapsto> JArr (cur @ map a_id new)] ''id'' = None" by simp
  from updateUserStats_stored[where db=db and st=st and now=now
      and updates="[''achievements'' \<mapsto> JArr (cur @ map a_id new)]", OF store keyed u]
  obtain returned db' where
    "updateUserStats now db [''achievements'' \<mapsto> JArr (cur @ map a_id new)] = Inr (returned, db')"
    by blast
  then show ?thesis
    unfolding checkAchievements_def persist_achievements_def
    by (simp add: arr js_or_def award_achievements new_def[symmetric] Let_def await_def)
qed

lemma checkAchievements_no_repeat:
  assumes arr: "stats ''achievements'' = Some (JArr cur)"
    and first: "checkAchievements now db stats = Inr (new, stats', db')"
    and store: "db' USER_STATS = Some st'" and keyed: "keyed_by_id st'"
  shows "\<exists>db''. checkAchievements now' db' stats' = Inr ([], stats', db'')"
proof -
  define P :: "achievement \<Rightarrow> bool" where
    "P = (\<lambda>a. a_id a \<notin> set cur \<and> condition a stats)"
  have s': "stats' = stats(''achievements'' \<mapsto> JArr (cur @ map a_id (filter P achievements)))"
    using first unfolding checkAchievements_def persist_achievements_def P_def
    by (auto simp: arr js_or_def award_achievements Let_def await_def
        split: if_splits sum.splits)
  have none: "filter (\<lambda>a. a_id a \<notin> set (cur @ map a_id (filter P achievements)) \<and>
                condition a stats') achievements = []"
    unfolding s' by (auto simp: filter_empty_conv condition_ignores_achievements P_def)
  have arr': "stats' ''achievements'' = Some (JArr (cur @ map a_id (filter P achievements)))"
    by (simp add: s')
  from checkAchievements_array[where stats=stats' and db=db' and st=st' and now=now',
      OF arr' store keyed]
  show ?thesis unfolding none by (simp add: s')
qed

section \<open>The embedding depends on the vocabulary\<close>

text \<open>
  One document, \<^verbatim>\<open>hello\<close>, gives the term the score \<open>ln (1 / 1) = 0\<close>; a second
  document, \<^verbatim>\<open>world\<close>, raises it to \<open>ln (2 / 1)\<close>.
\<close>

lemma tokenize_hello: "tokenize ''hello'' = [''hello'']"
  by (simp add: tokenize_def toLowerCase_def upper_case_def lower_case_def is_word_def is_space_def
      split_spaces.simps)

lemma tokenize_world: "tokenize ''world'' = [''world'']"
  by (simp add: tokenize_def toLowerCase_def upper_case_def lower_case_def is_word_def is_space_def
      split_spaces.simps)

lemma service_after_hello: "updateIDF new_service [''hello''] =
   \<lparr> vocabulary = [(''hello'', 1)], idfScores = [(''hello'', 0)], documentCount = 1 \<rparr>"
  by (simp add: updateIDF_def new_service_def uniqueTokens_def Let_def)

lemma service_after_world: "updateIDF \<lparr> vocabulary = [(''hello'', 1)], idfScores = [(''hello'', 0)], documentCount = 1 \<rparr> [''world''] =
   \<lparr> vocabulary = [(''hello'', 1), (''world'', 1)], idfScores = [(''hello'', ln 2), (''world'', ln 2)], documentCount = 2 \<rparr>"
  by (simp add: updateIDF_def uniqueTokens_def Let_def)

lemma calculateTF_hello: "calculateTF [''hello''] = [(''hello'', 1)]"
  by (simp add: calculateTF_def)

lemma embedding_before: "generateEmbedding \<lparr> vocabulary = [(''hello'', 1)], idfScores = [(''hello'', 0)], documentCount = 1 \<rparr> ''hello'' ! 0 = 0"
  by (simp add: generateEmbedding_def tokenize_hello calculateTF_hello Let_def)

lemma embedding_after: "generateEmbedding \<lparr> vocabulary = [(''hello'', 1), (''world'', 1)], idfScores = [(''hello'', ln 2), (''world'', ln 2)], documentCount = 2 \<rparr> ''hello'' ! 0 = ln 2"
  by (simp add: generateEmbedding_def tokenize_hello calculateTF_hello Let_def)

lemma embedding_changes:
  "generateEmbedding (updateIDF new_service (tokenize ''hello'')) ''hello'' \<noteq>
   generateEmbedding (updateIDF (updateIDF new_service (tokenize ''hello'')) (tokenize ''world'')) ''hello''"
proof
  assume "generateEmbedding (updateIDF new_service (tokenize ''hello'')) ''hello'' =
   generateEmbedding (updateIDF (updateIDF new_service (tokenize ''hello'')) (tokenize ''world'')) ''hello''"
  then have "generateEmbedding (updateIDF new_service (tokenize ''hello'')) ''hello'' ! 0 =
   generateEmbedding (updateIDF (updateIDF new_service (tokenize ''hello'')) (tokenize ''world'')) ''hello'' ! 0"
    by simp
  then have "(0::real) = ln 2"
    by (simp only: tokenize_hello tokenize_world service_after_hello service_after_world embedding_before embedding_after)
  then show False by simp
qed

text \<open>
  Claim C6. The output of \<^verbatim>\<open>generateEmbedding\<close> is not a function of its text alone:
  there are a text, a state of the service and another document such that
  \<^verbatim>\<open>updateIDF\<close> on that document changes the vector of the text.
\<close>

theorem generateEmbedding_not_function_of_text:
  "\<exists>text doc svc.
     tokenize doc \<noteq> tokenize text \<and>
     generateEmbedding svc text \<noteq> generateEmbedding (updateIDF svc (tokenize doc)) text"
proof (intro exI conjI)
  show "tokenize ''world'' \<noteq> tokenize ''hello''"
    by (simp add: tokenize_hello tokenize_world)
  show "generateEmbedding (updateIDF new_service (tokenize ''hello'')) ''hello'' \<noteq>
        generateEmbedding (updateIDF (updateIDF new_service (tokenize ''hello'')) (tokenize ''world''))
          ''hello''"
    by (rule embedding_changes)
qed


section \<open>Cosine similarity\<close>

lemma accumulate_sums:
  "length xs = length ys \<Longrightarrow>
   accumulate xs ys (d, a, b) =
     (d + (\<Sum>(x, y)\<leftarrow>zip xs ys. x * y), a + (\<Sum>x\<leftarrow>xs. x * x), b + (\<Sum>y\<leftarrow>ys. y * y))"
  by (induction xs ys arbitrary: d a b rule: list_induct2) simp_all

lemma sum_squares_nonneg: "0 \<le> (\<Sum>x\<leftarrow>xs. x * x :: real)"
  by (rule sum_list_nonneg) auto

lemma sum_squares_zero_iff: "(\<Sum>x\<leftarrow>xs. x * x :: real) = 0 \<longleftrightarrow> (\<forall>x \<in> set xs. x = 0)"
  by (induction xs) (auto simp: add_nonneg_eq_0_iff sum_squares_nonneg)

lemma cosineSimilarity_eq:
  assumes "length vec1 = length vec2"
  shows "cosineSimilarity vec1 vec2 =
    (if (\<forall>x \<in> set vec1. x = 0) \<or> (\<forall>y \<in> set vec2. y = 0) then Real 0
     else Real ((\<Sum>(x, y)\<leftarrow>zip vec1 vec2. x * y) /
                (sqrt (\<Sum>x\<leftarrow>vec1. x * x) * sqrt (\<Sum>y\<leftarrow>vec2. y * y))))"
  using assms
  by (simp add: cosineSimilarity_def accumulate_sums sum_squares_zero_iff js_divide_def)

lemma cosineSimilarity_real: "\<exists>r. cosineSimilarity vec1 vec2 = Real r"
proof (cases "length vec1 = length vec2")
  case True
  then show ?thesis by (simp add: cosineSimilarity_eq)
next
  case False
  then show ?thesis by (simp add: cosineSimilarity_def)
qed




lemma round_even_small: "0 \<le> x \<Longrightarrow> x < 1 / 2 \<Longrightarrow> round_even x = 0"
proof -
  assume a: "0 \<le> x" "x < 1 / 2"
  then have "\<lfloor>x\<rfloor> = 0" by (simp add: floor_eq_iff)
  then show ?thesis using a by (simp add: round_even_def)
qed

lemma to_double_underflow:
  assumes "n \<ge> 1076"
  shows "to_double (1 / 2 ^ n) = Real 0"
proof -
  have e: "double_exponent (1 / 2 ^ n) = - 1022"
    using assms by (simp add: double_exponent_def log_divide)
  define ulp :: real where "ulp = 2 powr of_int (- 1022 - 52)"
  have u: "ulp = 1 / 2 ^ 1074"
    unfolding ulp_def by (simp only: powr_int) simp
  have "(1 / 2 ^ n) / ulp = 2 ^ 1074 / (2::real) ^ n"
    unfolding u by simp
  also have "\<dots> = 1 / 2 ^ (n - 1074)"
    using assms by (simp add: power_diff)
  also have "\<dots> \<le> 1 / 2 ^ 2"
    using assms by (intro divide_left_mono power_increasing) simp_all
  finally have lt: "(1 / 2 ^ n) / ulp < 1 / 2" by simp
  have ge: "0 \<le> (1 / 2 ^ n) / ulp" unfolding u by simp
  have "round_even ((1 / 2 ^ n) / ulp) = 0"
    using ge lt by (rule round_even_small)
  then show ?thesis
    unfolding to_double_def e Let_def ulp_def[symmetric]
    by (simp del: power_numeral)
qed


text \<open>
  In the other direction the squares of \<open>2\<^sup>-\<^sup>6\<^sup>0\<^sup>0\<close> round to zero, and the guard on the
  norms returns 0 for a vector against itself. In the arithmetic of the reals both
  calls give 1.
\<close>

lemma cosineSimilarity_underflow:
  "cosineSimilarity_double [Real (1 / 2 ^ 600)] [Real (1 / 2 ^ 600)] = Real 0"
proof -
  have "(1 / (2::real) ^ 600) * (1 / 2 ^ 600) = 1 / 2 ^ 1200"
    by (simp add: power_add[symmetric] del: power_numeral)
  then have "to_double (1 / 2 ^ 600 * (1 / 2 ^ 600)) = Real 0"
    using to_double_underflow[of 1200] by (simp only:)
  then show ?thesis
    unfolding cosineSimilarity_double_def
    by (simp add: to_double_def del: power_numeral)
qed

lemma cosineSimilarity_exact:
  "cosineSimilarity [2 ^ 600] [2 ^ 600] = Real 1 \<and>
   cosineSimilarity [1 / 2 ^ 600] [1 / 2 ^ 600] = Real 1"
  by (simp add: cosineSimilarity_eq del: power_numeral)

text \<open>The guards of the source, over the doubles: vectors of different lengths, and a
  norm that is computed as zero.\<close>

lemma cosineSimilarity_double_guards:
  "(length vec1 \<noteq> length vec2 \<longrightarrow> cosineSimilarity_double vec1 vec2 = Real 0) \<and>
   (fst (snd (accumulate_double vec1 vec2 (Real 0, Real 0, Real 0))) = Real 0 \<longrightarrow>
      cosineSimilarity_double vec1 vec2 = Real 0) \<and>
   (snd (snd (accumulate_double vec1 vec2 (Real 0, Real 0, Real 0))) = Real 0 \<longrightarrow>
      cosineSimilarity_double vec1 vec2 = Real 0)"
  by (auto simp: cosineSimilarity_double_def split: prod.splits)

section \<open>Semantic search\<close>

lemma comparator_real:
  "similarity a = Real x \<Longrightarrow> similarity b = Real y \<Longrightarrow>
   js_greater (comparator a b) 0 \<longleftrightarrow> sim_value a < sim_value b"
  by (simp add: comparator_def sim_value_def)

lemma set_insert_sorted: "set (insert_sorted a bs) = insert a (set bs)"
  by (induction bs) auto

lemma set_sort_results: "set (sort_results xs) = set xs"
  by (induction xs) (simp_all add: set_insert_sorted)

lemma insert_sorted_descending:
  assumes "\<forall>r \<in> set (a # bs). \<exists>x. similarity r = Real x"
    and "sorted_wrt (\<lambda>a b. sim_value a \<ge> sim_value b) bs"
  shows "sorted_wrt (\<lambda>a b. sim_value a \<ge> sim_value b) (insert_sorted a bs)"
  using assms
proof (induction bs)
  case Nil
  then show ?case by simp
next
  case (Cons b bs)
  from Cons.prems(1) obtain x y where xy: "similarity a = Real x" "similarity b = Real y"
    by auto
  show ?case
  proof (cases "js_greater (comparator a b) 0")
    case True
    then have lt: "sim_value a < sim_value b" using comparator_real[OF xy] by simp
    have "sorted_wrt (\<lambda>a b. sim_value a \<ge> sim_value b) (insert_sorted a bs)"
      using Cons by simp
    then show ?thesis
      using True lt Cons.prems(2) by (auto simp: set_insert_sorted)
  next
    case False
    then have ge: "sim_value a \<ge> sim_value b" using comparator_real[OF xy] by simp
    then show ?thesis
      using False Cons.prems(2) by auto
  qed
qed

lemma sort_results_descending:
  "\<forall>r \<in> set xs. \<exists>x. similarity r = Real x \<Longrightarrow>
   sorted_wrt (\<lambda>a b. sim_value a \<ge> sim_value b) (sort_results xs)"
proof (induction xs)
  case Nil
  then show ?case by simp
next
  case (Cons a xs)
  then show ?case
    by (simp add: insert_sorted_descending set_sort_results)
qed

lemma set_slice0: "set (slice0 limit xs) \<subseteq> set xs"
  by (auto simp: slice0_def dest: in_set_takeD)

lemma slice0_descending:
  "sorted_wrt P xs \<Longrightarrow> sorted_wrt P (slice0 limit xs)"
  by (simp add: slice0_def sorted_wrt_take)

lemma length_slice0: "0 \<le> limit \<Longrightarrow> length (slice0 limit xs) \<le> nat limit"
  by (simp add: slice0_def)

text \<open>The results of a search that reached the ranking.\<close>

lemma ranked_results:
  fixes records :: "embedding_record list"
  defines "ranked \<equiv> \<lambda>q limit. slice0 limit (sort_results
            (filter (\<lambda>result. js_greater (similarity result) (1 / 10))
              (map (\<lambda>e. embedding_record.extend e \<lparr> similarity = cosineSimilarity q (embedding e) \<rparr>)
                 records)))"
  shows "(\<forall>r \<in> set (ranked q limit). \<exists>x. similarity r = Real x \<and> x > 1 / 10) \<and>
         sorted_wrt (\<lambda>a b. sim_value a \<ge> sim_value b) (ranked q limit) \<and>
         (0 \<le> limit \<longrightarrow> length (ranked q limit) \<le> nat limit) \<and>
         (\<forall>r \<in> set (ranked q limit). \<exists>e \<in> set records.
            r = embedding_record.extend e \<lparr> similarity = cosineSimilarity q (embedding e) \<rparr>)"
proof -
  define results where "results =
    filter (\<lambda>result. js_greater (similarity result) (1 / 10))
      (map (\<lambda>e. embedding_record.extend e \<lparr> similarity = cosineSimilarity q (embedding e) \<rparr>)
         records)"
  have real: "\<exists>x. similarity r = Real x \<and> x > 1 / 10" if "r \<in> set results" for r
  proof -
    from that obtain e where
      r: "r = embedding_record.extend e \<lparr> similarity = cosineSimilarity q (embedding e) \<rparr>"
      and g: "js_greater (similarity r) (1 / 10)"
      by (auto simp: results_def)
    obtain x where "cosineSimilarity q (embedding e) = Real x"
      using cosineSimilarity_real by blast
    then have "similarity r = Real x"
      by (simp add: r embedding_record.defs)
    with g show ?thesis by simp
  qed
  have r: "ranked q limit = slice0 limit (sort_results results)"
    by (simp add: ranked_def results_def)
  have sub: "set (ranked q limit) \<subseteq> set results"
    unfolding r using set_slice0[of limit "sort_results results"] by (simp add: set_sort_results)
  have "sorted_wrt (\<lambda>a b. sim_value a \<ge> sim_value b) (sort_results results)"
    by (rule sort_results_descending) (use real in blast)
  then have "sorted_wrt (\<lambda>a b. sim_value a \<ge> sim_value b) (ranked q limit)"
    unfolding r by (rule slice0_descending)
  moreover have "\<exists>e \<in> set records.
      r = embedding_record.extend e \<lparr> similarity = cosineSimilarity q (embedding e) \<rparr>"
    if "r \<in> set (ranked q limit)" for r
    using that sub by (auto simp: results_def)
  ultimately show ?thesis
    using sub real by (auto simp: r length_slice0)
qed

text \<open>
  Claim C5. \<^verbatim>\<open>semanticSearch\<close> returns the empty list when the query is \<^verbatim>\<open>null\<close>,
  empty or shorter than 3 characters, and when the read of the stored embeddings is
  rejected; in every case it returns at most \<open>limit\<close> results for a limit that is not
  negative, each a stored record with its cosine similarity to the embedding of the query,
  which is above 0.1, in descending order of similarity.
\<close>

theorem semanticSearch_spec:
  "(query = None \<or> (\<exists>q. query = Some q \<and> length q < 3) \<longrightarrow>
      semanticSearch svc getEmbeddingsByChat query chatId limit = []) \<and>
   ((\<exists>c error. chatId = Some c \<and> c \<noteq> [] \<and> getEmbeddingsByChat c = Inl error) \<longrightarrow>
      semanticSearch svc getEmbeddingsByChat query chatId limit = []) \<and>
   (0 \<le> limit \<longrightarrow>
      length (semanticSearch svc getEmbeddingsByChat query chatId limit) \<le> nat limit) \<and>
   (\<forall>r \<in> set (semanticSearch svc getEmbeddingsByChat query chatId limit).
      \<exists>x. similarity r = Real x \<and> x > 1 / 10) \<and>
   sorted_wrt (\<lambda>a b. sim_value a \<ge> sim_value b)
     (semanticSearch svc getEmbeddingsByChat query chatId limit) \<and>
   (\<forall>q c records.
      query = Some q \<and> chatId = Some c \<and> getEmbeddingsByChat c = Inr records \<longrightarrow>
      (\<forall>r \<in> set (semanticSearch svc getEmbeddingsByChat query chatId limit).
         \<exists>e \<in> set records.
           r = embedding_record.extend e
                 \<lparr> similarity = cosineSimilarity (generateEmbedding svc q) (embedding e) \<rparr>))"
proof -
  have early: "semanticSearch svc getEmbeddingsByChat query chatId limit = []"
    if "query = None \<or> (\<exists>q. query = Some q \<and> length q < 3)"
    using that by (auto simp: semanticSearch_def)
  have caught: "semanticSearch svc getEmbeddingsByChat query chatId limit = []"
    if "\<exists>c error. chatId = Some c \<and> c \<noteq> [] \<and> getEmbeddingsByChat c = Inl error"
    using that by (auto simp: semanticSearch_def Let_def split: option.splits)
  consider (empty) "semanticSearch svc getEmbeddingsByChat query chatId limit = []"
    | (ranked) q records where
      "semanticSearch svc getEmbeddingsByChat query chatId limit =
         slice0 limit (sort_results
            (filter (\<lambda>result. js_greater (similarity result) (1 / 10))
              (map (\<lambda>e. embedding_record.extend e
                     \<lparr> similarity = cosineSimilarity q (embedding e) \<rparr>) records)))"
  proof (cases query)
    case None
    then show ?thesis using empty by (simp add: semanticSearch_def)
  next
    case (Some qtext)
    show ?thesis
    proof (cases "qtext = [] \<or> length qtext < 3")
      case True
      then show ?thesis using empty Some by (simp add: semanticSearch_def)
    next
      case False
      define embeddings where "embeddings =
        (case chatId of None \<Rightarrow> Inr []
         | Some c \<Rightarrow> if c \<noteq> [] then getEmbeddingsByChat c else Inr [])"
      show ?thesis
      proof (cases embeddings)
        case (Inl error)
        then show ?thesis
          using empty Some False
          by (simp add: semanticSearch_def Let_def embeddings_def[symmetric])
      next
        case (Inr records)
        then show ?thesis
          using ranked[of "generateEmbedding svc qtext" records] Some False
          by (simp add: semanticSearch_def Let_def embeddings_def[symmetric])
      qed
    qed
  qed
  then have rest: "(0 \<le> limit \<longrightarrow>
      length (semanticSearch svc getEmbeddingsByChat query chatId limit) \<le> nat limit) \<and>
   (\<forall>r \<in> set (semanticSearch svc getEmbeddingsByChat query chatId limit).
      \<exists>x. similarity r = Real x \<and> x > 1 / 10) \<and>
   sorted_wrt (\<lambda>a b. sim_value a \<ge> sim_value b)
     (semanticSearch svc getEmbeddingsByChat query chatId limit)"
  proof cases
    case empty
    then show ?thesis by simp
  next
    case ranked
    show ?thesis unfolding ranked using ranked_results[where records=records and q=q and limit=limit] by blast
  qed
  have source: "\<exists>e \<in> set records.
           r = embedding_record.extend e
                 \<lparr> similarity = cosineSimilarity (generateEmbedding svc q) (embedding e) \<rparr>"
    if h: "query = Some q \<and> chatId = Some c \<and> getEmbeddingsByChat c = Inr records"
      and r: "r \<in> set (semanticSearch svc getEmbeddingsByChat query chatId limit)"
    for q c records r
  proof (cases "q = [] \<or> length q < 3 \<or> c = []")
    case True
    then have "semanticSearch svc getEmbeddingsByChat query chatId limit = []"
      using h by (auto simp: semanticSearch_def Let_def slice0_def)
    then show ?thesis using r by simp
  next
    case False
    then have "semanticSearch svc getEmbeddingsByChat query chatId limit =
         slice0 limit (sort_results
            (filter (\<lambda>result. js_greater (similarity result) (1 / 10))
              (map (\<lambda>e. embedding_record.extend e
                     \<lparr> similarity = cosineSimilarity (generateEmbedding svc q) (embedding e) \<rparr>)
                 records)))"
      using h by (simp add: semanticSearch_def Let_def)
    then show ?thesis
      using r ranked_results[where records=records and q="generateEmbedding svc q" and limit=limit]
      by simp
  qed
  show ?thesis using early caught rest source by blast
qed

text \<open>A search that finds a message: the vector of the query against itself and against
  the zero vector.\<close>

lemma length_generateEmbedding: "length (generateEmbedding svc qtext) = 100"
  by (simp add: generateEmbedding_def Let_def)

lemma cosineSimilarity_self:
  assumes "\<exists>x \<in> set v. x \<noteq> 0"
  shows "cosineSimilarity v v = Real 1"
proof -
  have z: "(\<Sum>(x, y)\<leftarrow>zip v v. x * y) = (\<Sum>x\<leftarrow>v. x * x)"
    by (induction v) simp_all
  have pos: "0 < (\<Sum>x\<leftarrow>v. x * x)"
    using assms sum_squares_nonneg[of v] sum_squares_zero_iff[of v]
    by (metis order_le_less)
  show ?thesis
    using assms pos by (simp add: cosineSimilarity_eq z)
qed

lemma cosineSimilarity_zero: "cosineSimilarity v (replicate (length v) 0) = Real 0"
  by (simp add: cosineSimilarity_eq)

theorem semanticSearch_spec_witness:
  "semanticSearch new_service (\<lambda>c. Inl NotFoundError) (Some ''hello'') (Some ''chat'') 10 = [] \<and>
   semanticSearch new_service (\<lambda>c. Inr []) (Some ''hi'') (Some ''chat'') 10 = [] \<and>
   (let svc = updateIDF (updateIDF new_service (tokenize ''hello'')) (tokenize ''world'');
        e = \<lparr> e_id = ''chat-m1'', e_chatId = ''chat'', e_messageId = ''m1'', e_text = ''hello'',
              embedding = generateEmbedding svc ''hello'', e_timestamp = 1 \<rparr>;
        e0 = \<lparr> e_id = ''chat-m2'', e_chatId = ''chat'', e_messageId = ''m2'', e_text = ''other'',
              embedding = replicate 100 0, e_timestamp = 2 \<rparr>
    in semanticSearch svc (\<lambda>c. Inr [e0, e]) (Some ''hello'') (Some ''chat'') 10 =
         [embedding_record.extend e \<lparr> similarity = Real 1 \<rparr>] \<and>
       length (semanticSearch svc (\<lambda>c. Inr [e0, e]) (Some ''hello'') (Some ''chat'') 10) \<le> 10)"
proof -
  define svc where "svc = updateIDF (updateIDF new_service (tokenize ''hello'')) (tokenize ''world'')"
  define v where "v = generateEmbedding svc ''hello''"
  have len: "length v = 100" by (simp add: v_def length_generateEmbedding)
  have "v ! 0 = ln 2"
    unfolding v_def svc_def by (simp only: tokenize_hello tokenize_world service_after_hello service_after_world embedding_after)
  then have "v ! 0 \<noteq> 0" by simp
  moreover have "v ! 0 \<in> set v" using len by simp
  ultimately have nz: "\<exists>x \<in> set v. x \<noteq> 0" by blast
  have one: "cosineSimilarity v v = Real 1" by (rule cosineSimilarity_self[OF nz])
  have zero: "cosineSimilarity v (replicate 100 0) = Real 0"
    using cosineSimilarity_zero[of v] by (simp add: len)
  have ex: "semanticSearch svc (\<lambda>c. Inr
      [\<lparr> e_id = ''chat-m2'', e_chatId = ''chat'', e_messageId = ''m2'', e_text = ''other'',
              embedding = replicate 100 0, e_timestamp = 2 \<rparr>,
       \<lparr> e_id = ''chat-m1'', e_chatId = ''chat'', e_messageId = ''m1'', e_text = ''hello'',
              embedding = v, e_timestamp = 1 \<rparr>]) (Some ''hello'') (Some ''chat'') 10 =
    [embedding_record.extend \<lparr> e_id = ''chat-m1'', e_chatId = ''chat'', e_messageId = ''m1'',
        e_text = ''hello'', embedding = v, e_timestamp = 1 \<rparr> \<lparr> similarity = Real 1 \<rparr>]"
    by (simp add: semanticSearch_def Let_def v_def[symmetric] one zero slice0_def
        embedding_record.defs)
  show ?thesis
    using semanticSearch_spec[of "Some ''hello''" new_service "\<lambda>c. Inl NotFoundError" "Some ''chat''" 10]
      semanticSearch_spec[of "Some ''hi''" new_service "\<lambda>c. Inr []" "Some ''chat''" 10]
      ex
    unfolding Let_def svc_def[symmetric] v_def[symmetric]
    by simp
qed

section \<open>Extracting code blocks\<close>

lemma fence_simps [simp]: "length fence = 3" "fence \<noteq> []" "hd fence = CHR 0x60"
  by (simp_all add: fence_def)

lemma prefix_fence_hd: "prefix fence (c # cs) \<Longrightarrow> c = CHR 0x60"
  by (simp add: fence_def)

lemma find_fence_split: "find_fence s = Some (before, after) \<Longrightarrow> s = before @ fence @ after"
proof (induction s arbitrary: before)
  case Nil
  then show ?case by simp
next
  case (Cons c cs)
  show ?case
  proof (cases "prefix fence (c # cs)")
    case True
    then have e: "c # cs = fence @ drop 3 (c # cs)"
      by (metis append_eq_conv_conj fence_simps(1) prefix_def)
    from Cons.prems True have "before = []" "after = drop 3 (c # cs)"
      by simp_all
    then show ?thesis using e by simp
  next
    case False
    then show ?thesis using Cons by (auto split: option.splits)
  qed
qed

lemma find_fence_at_fence: "find_fence (fence @ r) = Some ([], r)"
  by (simp add: fence_def)

text \<open>Characters other than the backtick in front do not change the search.\<close>

lemma find_fence_skip:
  "\<forall>c \<in> set w. c \<noteq> CHR 0x60 \<Longrightarrow>
   find_fence (w @ r) = (case find_fence r of None \<Rightarrow> None | Some (content, rest) \<Rightarrow> Some (w @ content, rest))"
proof (induction w)
  case Nil
  then show ?case by (simp split: option.splits)
next
  case (Cons c w)
  then have "\<not> prefix fence (c # (w @ r))"
    using prefix_fence_hd by auto
  then show ?case using Cons by (simp split: option.splits)
qed

lemma find_fence_Cons_None: "find_fence (c # cs) = None \<Longrightarrow> find_fence cs = None"
  by (auto split: if_splits option.splits)

lemma find_fence_drop_None: "find_fence s = None \<Longrightarrow> find_fence (drop j s) = None"
proof (induction j arbitrary: s)
  case 0
  then show ?case by simp
next
  case (Suc j)
  then show ?case by (cases s) (auto dest: find_fence_Cons_None simp del: find_fence.simps)
qed

lemma find_fence_None_iff: "find_fence s = None \<longleftrightarrow> \<not> sublist fence s"
proof
  assume n: "find_fence s = None"
  show "\<not> sublist fence s"
  proof
    assume "sublist fence s"
    then obtain ps ss where "s = ps @ fence @ ss" by (auto simp: sublist_def)
    then have "drop (length ps) s = fence @ ss" by simp
    then have "find_fence (drop (length ps) s) \<noteq> None"
      by (simp add: find_fence_at_fence)
    then show False using find_fence_drop_None[OF n, of "length ps"] by simp
  qed
next
  assume "\<not> sublist fence s"
  then show "find_fence s = None"
    by (cases "find_fence s") (auto dest!: find_fence_split simp: sublist_def)
qed

text \<open>
  The choices of the matcher. Word characters and the line feed are not backticks, so a
  shorter tag or a line feed left in place finds a closing fence exactly when the first
  choice does: the first choice is the one that matches.
\<close>

lemma is_space_newline [simp]: "is_space (CHR 0x0A)"
  by (simp add: is_space_def)

lemma not_word_backtick [simp]: "\<not> is_word (CHR 0x60)"
  by (simp add: is_word_def)

lemma trim_space_Cons: "is_space c \<Longrightarrow> trim (c # cs) = trim cs"
  by (simp add: trim_def)

lemma try_newline_None:
  assumes "find_fence r = None"
  shows "try_newline r = None"
proof (cases r)
  case Nil
  then show ?thesis by (simp add: try_newline_def)
next
  case (Cons c r')
  then have "find_fence r' = None"
    using assms find_fence_Cons_None by blast
  then show ?thesis
    using assms Cons by (auto simp add: try_newline_def simp del: find_fence.simps)
qed

lemma try_newline_Some:
  assumes "find_fence r = Some (body, rest)"
  shows "\<exists>content. try_newline r = Some (content, rest) \<and> trim content = trim body"
proof (cases r)
  case Nil
  then show ?thesis using assms by simp
next
  case (Cons c r')
  show ?thesis
  proof (cases "c = CHR 0x0A")
    case True
    have "find_fence ([c] @ r') =
      (case find_fence r' of None \<Rightarrow> None | Some (content, rest) \<Rightarrow> Some ([c] @ content, rest))"
      by (rule find_fence_skip) (simp add: True)
    then obtain content where c: "find_fence r' = Some (content, rest)" and b: "body = c # content"
      using assms Cons by (auto split: option.splits)
    then show ?thesis
      using Cons True by (simp add: try_newline_def trim_space_Cons del: find_fence.simps)
  next
    case False
    then show ?thesis using assms Cons by (simp add: try_newline_def del: find_fence.simps)
  qed
qed

lemma try_tags_None: "find_fence r = None \<Longrightarrow> try_tags k r = None"
  by (induction k) (simp_all add: try_newline_None find_fence_drop_None)

lemma word_run:
  assumes "r = body @ fence @ rest"
  shows "takeWhile is_word r = takeWhile is_word body"
    and "dropWhile is_word r = dropWhile is_word body @ fence @ rest"
  unfolding assms fence_def by (simp_all add: takeWhile_tail dropWhile_append3)

lemma try_tags_Some:
  assumes f: "find_fence r = Some (body, rest)"
  shows "\<exists>content.
     try_tags (length (takeWhile is_word r)) r =
       Some (if takeWhile is_word body = [] then None else Some (takeWhile is_word body),
             content, rest) \<and>
     trim content = trim (dropWhile is_word body)"
proof -
  define tag where "tag = takeWhile is_word r"
  have r: "r = body @ fence @ rest" using f by (rule find_fence_split)
  have tag: "tag = takeWhile is_word body"
    and dr: "dropWhile is_word r = dropWhile is_word body @ fence @ rest"
    using word_run[OF r] by (simp_all add: tag_def)
  have nb: "\<forall>c \<in> set tag. c \<noteq> CHR 0x60"
    unfolding tag_def using not_word_backtick by (metis set_takeWhileD)
  have split: "r = tag @ dropWhile is_word r" by (simp add: tag_def)
  have "find_fence (tag @ dropWhile is_word r) =
    (case find_fence (dropWhile is_word r) of
       None \<Rightarrow> None | Some (content, rest) \<Rightarrow> Some (tag @ content, rest))"
    by (rule find_fence_skip[OF nb])
  then obtain c where c: "find_fence (dropWhile is_word r) = Some (c, rest)" and b: "body = tag @ c"
    using f split by (auto split: option.splits)
  have c': "c = dropWhile is_word body"
    using b tag by (metis append_eq_conv_conj takeWhile_dropWhile_id)
  from try_newline_Some[OF c] obtain content where
    t: "try_newline (dropWhile is_word r) = Some (content, rest)" and tr: "trim content = trim c"
    by blast
  have d: "drop (length tag) r = dropWhile is_word r"
    unfolding tag_def by (rule dropWhile_eq_drop[symmetric])
  have tk: "take (length tag) r = tag"
    unfolding tag_def by (rule takeWhile_eq_take[symmetric])
  have main: "try_tags (length tag) r = Some (if tag = [] then None else Some tag, content, rest)"
  proof (cases "length tag")
    case 0
    then have e: "tag = []" by simp
    have "dropWhile is_word r = r" using d unfolding e by simp
    then have "try_newline r = Some (content, rest)" using t by simp
    then have "try_tags 0 r = Some (None, content, rest)" by simp
    then show ?thesis unfolding 0 e by simp
  next
    case (Suc k)
    then have ne: "tag \<noteq> []" by auto
    have "try_newline (drop (Suc k) r) = Some (content, rest)"
      using t d unfolding Suc by simp
    moreover have "take (Suc k) r = tag"
      using tk unfolding Suc .
    ultimately have "try_tags (Suc k) r = Some (Some tag, content, rest)"
      by simp
    then show ?thesis unfolding Suc using ne by simp
  qed
  have "try_tags (length (takeWhile is_word r)) r =
       Some (if takeWhile is_word body = [] then None else Some (takeWhile is_word body),
             content, rest)"
    using main unfolding tag[symmetric] unfolding tag_def .
  moreover have "trim content = trim (dropWhile is_word body)"
    using tr c' by simp
  ultimately show ?thesis by blast
qed

lemma match_at_fence: "match_at (fence @ r) = try_tags (length (takeWhile is_word r)) r"
  by (simp add: match_at_def)

text \<open>
  The search for the leftmost match. The first fence of the text opens the match when a
  later fence closes it; when none does, no later position matches either.
\<close>

lemma match_at_needs_fence:
  "match_at s \<noteq> None \<Longrightarrow> prefix fence s \<and> find_fence (drop 3 s) \<noteq> None"
  by (cases "find_fence (drop 3 s)")
    (auto simp: match_at_def Let_def try_tags_None split: if_splits)

lemma exec_None: "find_fence (drop 3 s) = None \<Longrightarrow> exec s = None"
proof (induction s)
  case Nil
  then show ?case by simp
next
  case (Cons c cs)
  then have m: "match_at (c # cs) = None"
    using match_at_needs_fence[of "c # cs"] by blast
  have "find_fence (drop 1 (drop 3 (c # cs))) = None"
    using Cons.prems by (rule find_fence_drop_None)
  then have "find_fence (drop 3 cs) = None"
    by (simp add: drop_Suc numeral_3_eq_3 drop_tl)
  then show ?case using Cons.IH m by simp
qed

lemma exec_skip: "find_fence s = Some (before, after) \<Longrightarrow> exec s = exec (fence @ after)"
proof (induction s arbitrary: before)
  case Nil
  then show ?case by simp
next
  case (Cons c cs)
  show ?case
  proof (cases "prefix fence (c # cs)")
    case True
    then have "before = []" using Cons.prems by simp
    then show ?thesis using find_fence_split[OF Cons.prems] by simp
  next
    case False
    then have m: "match_at (c # cs) = None" by (simp add: match_at_def)
    from False Cons.prems obtain content where "find_fence cs = Some (content, after)"
      by (auto split: option.splits)
    then show ?thesis using Cons.IH m by simp
  qed
qed

lemma exec_at_fence:
  assumes "match_at (fence @ after) = Some (g1, g2, rest)"
  shows "exec (fence @ after) = Some (fence @ after, g1, g2, rest)"
  using assms unfolding fence_def by simp

text \<open>One step of the loop against one fenced block.\<close>

lemma pieces_Cons: "\<exists>p ps. pieces s = p # ps"
  by (subst pieces.simps) (simp split: option.splits)

lemma no_closing_fence:
  assumes "find_fence str = Some (before, after)" and "find_fence after = None"
  shows "extractCodeBlocks str = []" and "matched_blocks str = []"
proof -
  have "exec (fence @ after) = None"
    by (rule exec_None) (simp add: assms(2))
  then have "exec str = None" using exec_skip[OF assms(1)] by simp
  then show "extractCodeBlocks str = []" by (simp add: extractCodeBlocks.simps)
  have "pieces str = [before, after]"
    using assms by (simp add: pieces.simps[of str] pieces.simps[of after])
  then show "matched_blocks str = []" by (simp add: matched_blocks_def)
qed

lemma no_fence:
  assumes "find_fence str = None"
  shows "extractCodeBlocks str = []" and "matched_blocks str = []"
proof -
  have "exec str = None"
    by (rule exec_None) (rule find_fence_drop_None[OF assms])
  then show "extractCodeBlocks str = []" by (simp add: extractCodeBlocks.simps)
  show "matched_blocks str = []"
    using assms by (simp add: matched_blocks_def pieces.simps[of str])
qed

lemma closed_fence:
  assumes f1: "find_fence str = Some (before, after)" and f2: "find_fence after = Some (body, rest)"
  shows "extractCodeBlocks str =
           \<lparr> language = (if matched_tag body = [] then ''text'' else matched_tag body),
             code = trim (matched_content body),
             fullMatch = fence @ body @ fence \<rparr> # extractCodeBlocks rest"
    and "matched_blocks str =
           \<lparr> language = (if matched_tag body = [] then ''text'' else matched_tag body),
             code = trim (matched_content body),
             fullMatch = fence @ body @ fence \<rparr> # matched_blocks rest"
proof -
  from try_tags_Some[OF f2] obtain content where
    t: "try_tags (length (takeWhile is_word after)) after =
       Some (if takeWhile is_word body = [] then None else Some (takeWhile is_word body),
             content, rest)"
    and tr: "trim content = trim (dropWhile is_word body)"
    by blast
  define start where "start = fence @ after"
  have "exec (fence @ after) =
      Some (fence @ after,
            if takeWhile is_word body = [] then None else Some (takeWhile is_word body),
            content, rest)"
    by (rule exec_at_fence) (simp add: match_at_fence t)
  then have e: "exec str =
      Some (start,
            if takeWhile is_word body = [] then None else Some (takeWhile is_word body),
            content, rest)"
    using exec_skip[OF f1] by (simp add: start_def)
  have a: "after = body @ fence @ rest" using f2 by (rule find_fence_split)
  have full: "take (length start - length rest) start = fence @ body @ fence"
    unfolding start_def a by simp
  show "extractCodeBlocks str =
           \<lparr> language = (if matched_tag body = [] then ''text'' else matched_tag body),
             code = trim (matched_content body),
             fullMatch = fence @ body @ fence \<rparr> # extractCodeBlocks rest"
    by (subst extractCodeBlocks.simps)
      (simp add: e full tr matched_tag_def matched_content_def)
  obtain p ps where p: "pieces rest = p # ps" using pieces_Cons by blast
  have "pieces str = before # body # pieces rest"
    using f1 f2 by (simp add: pieces.simps[of str] pieces.simps[of after])
  then show "matched_blocks str =
           \<lparr> language = (if matched_tag body = [] then ''text'' else matched_tag body),
             code = trim (matched_content body),
             fullMatch = fence @ body @ fence \<rparr> # matched_blocks rest"
    by (simp add: matched_blocks_def p)
qed

lemma extractCodeBlocks_eq: "extractCodeBlocks str = matched_blocks str"
proof (induction "length str" arbitrary: str rule: less_induct)
  case less
  show ?case
  proof (cases "find_fence str")
    case None
    then show ?thesis by (simp add: no_fence)
  next
    case (Some ba)
    then obtain before after where f1: "find_fence str = Some (before, after)"
      by (cases ba) auto
    show ?thesis
    proof (cases "find_fence after")
      case None
      then show ?thesis using f1 by (simp add: no_closing_fence)
    next
      case (Some br)
      then obtain body rest where f2: "find_fence after = Some (body, rest)"
        by (cases br) auto
      have "length rest < length str"
        using find_fence_shorter[OF f1] find_fence_shorter[OF f2] by simp
      then have "extractCodeBlocks rest = matched_blocks rest" by (rule less)
      then show ?thesis by (simp add: closed_fence[OF f1 f2])
    qed
  qed
qed

text \<open>
  The expression against the words of the specification. On a body whose opening line
  is a run of word characters with nothing but white space behind it, the first group
  is the language tag and the second group, trimmed, the fenced content, trimmed.
\<close>

lemma trim_spaces_append: "list_all is_space sp \<Longrightarrow> trim (sp @ r) = trim r"
  by (induction sp) (simp_all add: trim_space_Cons)

lemma word_not_space: "is_word c \<Longrightarrow> \<not> is_space c"
  by (auto simp: is_word_def is_space_def)

lemma trim_word_spaces:
  assumes "list_all is_word w" and "list_all is_space sp"
  shows "trim (w @ sp) = w"
proof (cases w)
  case Nil
  then show ?thesis
    using trim_spaces_append[OF assms(2), of "[]"] by (simp add: trim_def)
next
  case (Cons c cs)
  have w: "\<forall>c \<in> set w. \<not> is_space c"
    using assms(1) word_not_space by (auto simp: list_all_iff)
  have 1: "dropWhile is_space (w @ sp) = w @ sp"
    using w Cons by simp
  have 2: "dropWhile is_space (rev sp @ rev w) = dropWhile is_space (rev w)"
    using assms(2) by (intro dropWhile_append2) (simp add: list_all_iff)
  have "last w \<in> set w" using Cons by simp
  then have "rev w \<noteq> []" "\<not> is_space (hd (rev w))"
    using w Cons by (simp_all only: hd_rev rev_is_Nil_conv) simp_all
  then have 3: "dropWhile is_space (rev w) = rev w"
    by (cases "rev w") simp_all
  show ?thesis
    by (simp add: trim_def 1 2 3)
qed

lemma word_tagged_cut:
  assumes "word_tagged body"
  shows "matched_tag body = language_tag body"
    and "trim (matched_content body) = trim (fenced_content body)"
proof -
  define line where "line = opening_line body"
  define rest where "rest = dropWhile (\<lambda>c. c \<noteq> CHR 0x0A) body"
  define tag where "tag = takeWhile is_word line"
  define sp where "sp = dropWhile is_word line"
  have body: "body = line @ rest"
    by (simp add: line_def rest_def opening_line_def)
  have line: "line = tag @ sp"
    by (simp add: tag_def sp_def)
  have sp: "list_all is_space sp"
    using assms by (simp add: word_tagged_def sp_def line_def)
  have tag: "list_all is_word tag"
    unfolding tag_def list_all_iff by (auto dest: set_takeWhileD)
  have rest: "rest = [] \<or> (\<exists>more. rest = CHR 0x0A # more)"
  proof (cases rest)
    case Nil
    then show ?thesis by simp
  next
    case (Cons a more)
    then have "dropWhile (\<lambda>c. c \<noteq> CHR 0x0A) body \<noteq> []"
      by (simp add: rest_def)
    from hd_dropWhile[OF this] have "a = CHR 0x0A"
      using Cons by (simp add: rest_def)
    then show ?thesis using Cons by simp
  qed
  have stop: "sp @ rest = [] \<or> \<not> is_word (hd (sp @ rest))"
  proof (cases sp)
    case Nil
    then show ?thesis using rest by (auto simp: is_word_def)
  next
    case (Cons c cs)
    have "dropWhile is_word line \<noteq> []"
      using Cons by (simp add: sp_def)
    from hd_dropWhile[OF this] have "\<not> is_word c"
      using Cons by (simp add: sp_def)
    then show ?thesis using Cons by simp
  qed
  have t: "takeWhile is_word (sp @ rest) = []" and d: "dropWhile is_word (sp @ rest) = sp @ rest"
    using stop by (cases "sp @ rest"; simp)+
  have "takeWhile is_word body = tag"
    unfolding body line using tag t by (simp add: list_all_iff takeWhile_append2)
  moreover have "trim line = tag"
    unfolding line using tag sp by (rule trim_word_spaces)
  ultimately show "matched_tag body = language_tag body"
    by (simp add: matched_tag_def language_tag_def line_def)
  have "dropWhile is_word body = sp @ rest"
    unfolding body line using tag d by (simp add: list_all_iff dropWhile_append2)
  then have "trim (matched_content body) = trim rest"
    using sp by (simp add: matched_content_def trim_spaces_append)
  moreover have "fenced_content body = tl rest"
    unfolding fenced_content_def line_def[symmetric] by (subst body) (simp add: drop_Suc)
  moreover have "trim rest = trim (tl rest)"
    using rest by (auto simp: trim_space_Cons)
  ultimately show "trim (matched_content body) = trim (fenced_content body)"
    by simp
qed

text \<open>
  So a text whose fences carry tags of word characters, or none, yields the blocks of
  the specification, and a text without a fence yields none.
\<close>

lemma extractCodeBlocks_word_tagged:
  assumes "list_all word_tagged (fenced_bodies (pieces str))"
  shows "extractCodeBlocks str = fenced_blocks str"
  unfolding extractCodeBlocks_eq matched_blocks_def fenced_blocks_def
  using assms by (intro map_cong) (auto simp: list_all_iff word_tagged_cut)

lemma extractCodeBlocks_no_fence: "\<not> sublist fence str \<Longrightarrow> extractCodeBlocks str = []"
  using no_fence(1) find_fence_None_iff by blast

lemma extractCodeBlocks_example:
  "map (\<lambda>b. (language b, code b))
     (extractCodeBlocks
        (''a '' @ fence @ ''js'' @ [CHR 0x0A] @ ''x = 1'' @ [CHR 0x0A] @ fence @
         '' b '' @ fence @ [CHR 0x0A] @ '' y '' @ fence @ '' c '' @ fence @ ''open'')) =
     [(''js'', ''x = 1''), (''text'', ''y'')]"
proof -
  define str where "str =
    ''a '' @ fence @ ''js'' @ [CHR 0x0A] @ ''x = 1'' @ [CHR 0x0A] @ fence @
         '' b '' @ fence @ [CHR 0x0A] @ '' y '' @ fence @ '' c '' @ fence @ ''open''"
  have b: "fenced_bodies (pieces str) = [''js'' @ [CHR 0x0A] @ ''x = 1'' @ [CHR 0x0A], [CHR 0x0A] @ '' y '']"
    unfolding str_def by (simp add: pieces.simps fence_def)
  have "list_all word_tagged (fenced_bodies (pieces str))"
    unfolding b by (simp add: word_tagged_def opening_line_def is_word_def is_space_def)
  then have "extractCodeBlocks str = fenced_blocks str"
    by (rule extractCodeBlocks_word_tagged)
  moreover have "map (\<lambda>b. (language b, code b)) (fenced_blocks str) =
     [(''js'', ''x = 1''), (''text'', ''y'')]"
    unfolding fenced_blocks_def b
    by (simp add: language_tag_def fenced_content_def opening_line_def trim_def is_space_def)
  ultimately show ?thesis
    unfolding str_def by simp
qed

text \<open>
  Claim C9 says that the language of an entry is the language tag of the fence and its
  code the fenced content. The expression takes the tag with \<^verbatim>\<open>\w+\<close>, which stops
  at the first character that is not a letter, a digit or an underscore: for a fence
  tagged \<^verbatim>\<open>c++\<close> the language returned is \<^verbatim>\<open>c\<close>, and the rest of the tag opens
  the code.
\<close>

theorem extractCodeBlocks_cpp_tag:
  "map (\<lambda>b. (language b, code b))
     (extractCodeBlocks (fence @ ''c++'' @ [CHR 0x0A] @ ''int x;'' @ [CHR 0x0A] @ fence)) =
     [(''c'', ''++'' @ [CHR 0x0A] @ ''int x;'')] \<and>
   map (\<lambda>b. (language b, code b))
     (fenced_blocks (fence @ ''c++'' @ [CHR 0x0A] @ ''int x;'' @ [CHR 0x0A] @ fence)) =
     [(''c++'', ''int x;'')]"
  unfolding extractCodeBlocks_eq
  by (simp add: matched_blocks_def fenced_blocks_def pieces.simps fence_def matched_tag_def
      matched_content_def language_tag_def fenced_content_def opening_line_def
      trim_def is_space_def is_word_def)

end
